theory Spec2Isabelle
  imports Complex_Main "HOL-Library.AList"
begin

section \<open>wikitools3/api.py: requests to the MediaWiki API\<close>

text \<open>
  The module is Python 3 (\<^verbatim>\<open>#!/usr/bin/env python3\<close>, f-strings, \<^verbatim>\<open>urllib.request\<close>), and
  the embedding follows Python 3: \<^verbatim>\<open>dict.keys()\<close> is a view that cannot be subscripted,
  \<^verbatim>\<open>str.encode\<close> gives \<^verbatim>\<open>bytes\<close>, and a value without an attribute raises
  \<^verbatim>\<open>AttributeError\<close> when the attribute is looked up.
\<close>

subsection \<open>Values\<close>

text \<open>
  Python values as they occur in parameter mappings and in decoded JSON. A \<^verbatim>\<open>str\<close> is a
  \<^typ>\<open>string\<close> of code points below 256. A \<^verbatim>\<open>dict\<close> is an association list in
  insertion order with string keys. Floats are left out: numbers are integers.
\<close>

datatype pyval =
    PNone
  | PBool bool
  | PInt int
  | PStr string
  | PBytes string
  | PList "pyval list"
  | PDict "(string \<times> pyval) list"

type_synonym pydict = "(string \<times> pyval) list"

datatype pyerror =
    APIError "pyval list"
  | APIDisabled string
  | UserBlocked pyval
  | KeyError string
  | TypeError string
  | AttributeError string
  | ValueError string
  | IndexError string
  | UnsupportedOperation string
  | Uncaught string
  | OutsideModel string

text \<open>
  \<^term>\<open>Uncaught e\<close>: the transport exception \<^term>\<open>e\<close> leaves \<^verbatim>\<open>__getRaw\<close> because the
  handler is \<^verbatim>\<open>except None\<close> (CPython 3 reports it as a TypeError raised while matching
  the handler, with \<^term>\<open>e\<close> as its context). \<^term>\<open>OutsideModel\<close> marks the one input
  shape the embedding does not cover (a parameter name that is not a string).
\<close>

subsection \<open>Text helpers\<close>

definition digit_char :: "nat \<Rightarrow> char" where
  "digit_char d = char_of (48 + d)"

fun str_nat :: "nat \<Rightarrow> string" where
  "str_nat n = (if n < 10 then [digit_char n] else str_nat (n div 10) @ [digit_char (n mod 10)])"

declare str_nat.simps [simp del]

text \<open>\<^verbatim>\<open>str(i)\<close> of an int.\<close>

definition str_int :: "int \<Rightarrow> string" where
  "str_int i = (if i < 0 then CHR ''-'' # str_nat (nat (- i)) else str_nat (nat i))"

text \<open>\<^verbatim>\<open>sub in s\<close> on two strings.\<close>

fun is_prefix :: "string \<Rightarrow> string \<Rightarrow> bool" where
  "is_prefix [] s = True"
| "is_prefix (p # ps) [] = False"
| "is_prefix (p # ps) (c # cs) = (p = c \<and> is_prefix ps cs)"

fun substring :: "string \<Rightarrow> string \<Rightarrow> bool" where
  "substring sub [] = (sub = [])"
| "substring sub (c # cs) = (is_prefix sub (c # cs) \<or> substring sub cs)"

subsection \<open>urllib.parse.quote_plus\<close>

text \<open>
  \<^verbatim>\<open>quote_plus\<close> is imported from the standard library. It is written out here from its
  documentation: the text is encoded as UTF-8, the letters, digits and \<^verbatim>\<open>_.-~\<close> are kept,
  a space becomes \<^verbatim>\<open>+\<close>, and every other byte becomes \<^verbatim>\<open>%XX\<close> in upper-case hex.
\<close>

definition utf8 :: "string \<Rightarrow> string" where
  "utf8 s = concat (map (\<lambda>c. if (of_char c :: nat) < 128 then [c]
       else [char_of (192 + (of_char c :: nat) div 64), char_of (128 + (of_char c :: nat) mod 64)]) s)"

definition always_safe :: "char list" where
  "always_safe = ''ABCDEFGHIJKLMNOPQRSTUVWXYZabcdefghijklmnopqrstuvwxyz0123456789_.-~''"

definition hex_digit :: "nat \<Rightarrow> char" where
  "hex_digit n = ''0123456789ABCDEF'' ! (n mod 16)"

definition quote_byte :: "char \<Rightarrow> string" where
  "quote_byte c =
     (if c \<in> set always_safe then [c]
      else if c = CHR '' '' then ''+''
      else [CHR ''%'', hex_digit ((of_char c :: nat) div 16), hex_digit ((of_char c :: nat) mod 16)])"

definition quote_plus :: "string \<Rightarrow> string" where
  "quote_plus s = concat (map quote_byte (utf8 s))"

subsection \<open>urlencode\<close>

text \<open>
  \<^verbatim>\<open>urlencode(query, doseq)\<close> with \<^verbatim>\<open>doseq\<close> true, which is how the request class calls it
  (\<^verbatim>\<open>urlencode(self.data, 1)\<close>). For one pair: a \<^verbatim>\<open>str\<close> value is quoted, an \<^verbatim>\<open>int\<close>
  value (a \<^verbatim>\<open>bool\<close> is an \<^verbatim>\<open>int\<close>) is printed and quoted, and for every other value the
  condition \<^verbatim>\<open>elif v.type(str)\<close> is evaluated next. None of \<^verbatim>\<open>None\<close>, \<^verbatim>\<open>bytes\<close>,
  \<^verbatim>\<open>list\<close> and \<^verbatim>\<open>dict\<close> has an attribute \<^verbatim>\<open>type\<close>, so the lookup raises AttributeError
  and the branches below it (the \<^verbatim>\<open>encode\<close> branch and the loop over a sequence) are never
  entered.
\<close>

definition str_bool :: "bool \<Rightarrow> string" where
  "str_bool b = (if b then ''True'' else ''False'')"

fun urlencode_pair :: "string \<times> pyval \<Rightarrow> pyerror + string" where
  "urlencode_pair (k, PStr s) = Inr (quote_plus k @ ''='' @ quote_plus s)"
| "urlencode_pair (k, PInt i) = Inr (quote_plus k @ ''='' @ quote_plus (str_int i))"
| "urlencode_pair (k, PBool b) = Inr (quote_plus k @ ''='' @ quote_plus (str_bool b))"
| "urlencode_pair (k, PNone) = Inl (AttributeError ''NoneType object has no attribute type'')"
| "urlencode_pair (k, PBytes b) = Inl (AttributeError ''bytes object has no attribute type'')"
| "urlencode_pair (k, PList xs) = Inl (AttributeError ''list object has no attribute type'')"
| "urlencode_pair (k, PDict d) = Inl (AttributeError ''dict object has no attribute type'')"

text \<open>The loop \<^verbatim>\<open>for k, v in query\<close> filling the list \<^verbatim>\<open>l\<close>; it stops at the first raise.\<close>

fun urlencode_items :: "pydict \<Rightarrow> pyerror + string list" where
  "urlencode_items [] = Inr []"
| "urlencode_items (kv # rest) =
     (case urlencode_pair kv of
        Inl e \<Rightarrow> Inl e
      | Inr s \<Rightarrow> (case urlencode_items rest of Inl e \<Rightarrow> Inl e | Inr l \<Rightarrow> Inr (s # l)))"

text \<open>\<^verbatim>\<open>"&".join(l)\<close>\<close>

fun join_amp :: "string list \<Rightarrow> string" where
  "join_amp [] = []"
| "join_amp [s] = s"
| "join_amp (s # t # rest) = s @ ''&'' @ join_amp (t # rest)"

definition urlencode :: "pydict \<Rightarrow> pyerror + string" where
  "urlencode query = (case urlencode_items query of Inl e \<Rightarrow> Inl e | Inr l \<Rightarrow> Inr (join_amp l))"

subsection \<open>The wiki object and the request object\<close>

text \<open>
  Of the \<^verbatim>\<open>Wiki\<close> collaborator the fields the request reads. HTTP basic authentication
  (\<^verbatim>\<open>wiki.auth\<close>) is taken to be unset, and the opener with its cookie and digest handlers is
  outside the model.
\<close>

record wiki =
  apibase :: string
  maxlag :: int
  maxwaittime :: int
  assertval :: "pyval option"
  useragent :: string

type_synonym headers = "(string \<times> string) list"

text \<open>A \<^verbatim>\<open>urllib.request.Request\<close>: URL, body and headers.\<close>

record http_request =
  url :: string
  body :: string
  hdrs :: headers

text \<open>
  \<^verbatim>\<open>_continues\<close> and \<^verbatim>\<open>_generator\<close> are the attributes \<^verbatim>\<open>__longQuery\<close> creates;
  \<^verbatim>\<open>response\<close> is \<^verbatim>\<open>False\<close> (here \<^term>\<open>None\<close>) until a response arrives.
\<close>

record APIRequest =
  sleep :: int
  data :: pydict
  iswrite :: bool
  multipart :: bool
  encodeddata :: string
  headers :: headers
  wiki :: wiki
  response :: "headers option"
  request :: http_request
  continues :: "string set"
  generator :: string

text \<open>
  \<^verbatim>\<open>multipart_encode\<close> comes from the package poster3; it is a parameter \<open>menc\<close> giving
  the chunks of the body and the headers.
\<close>

type_synonym multipart_encode = "pydict \<Rightarrow> string list \<times> headers"

text \<open>\<^verbatim>\<open>headers.pop(k)\<close> raises KeyError on a missing key; \<^verbatim>\<open>headers.update(h)\<close>.\<close>

definition pop_header :: "string \<Rightarrow> headers \<Rightarrow> pyerror + headers" where
  "pop_header k hs = (if k \<in> fst ` set hs then Inr (AList.delete k hs) else Inl (KeyError k))"

definition update_headers :: "headers \<Rightarrow> headers \<Rightarrow> headers" where
  "update_headers new hs = fold (\<lambda>(k, v). AList.update k v) new hs"

text \<open>
  \<^verbatim>\<open>APIRequest.__init__\<close>. \<^verbatim>\<open>canupload\<close> is the constant \<^verbatim>\<open>True\<close>, so the first check never
  raises. \<^verbatim>\<open>gzip\<close> was imported, so Accept-Encoding is set.
\<close>

definition init_data :: "wiki \<Rightarrow> pydict \<Rightarrow> bool \<Rightarrow> pydict" where
  "init_data wk d write =
     (let d1 = AList.update ''format'' (PStr ''json'') d;
          d2 = (case assertval wk of
                  Some a \<Rightarrow> if write then AList.update ''assert'' a d1 else d1
                | None \<Rightarrow> d1)
      in if map_of d2 ''maxlag'' = None \<and> maxlag wk \<ge> 0
         then AList.update ''maxlag'' (PInt (maxlag wk)) d2 else d2)"

definition APIRequest_init ::
  "multipart_encode \<Rightarrow> wiki \<Rightarrow> pydict \<Rightarrow> bool \<Rightarrow> bool \<Rightarrow> pyerror + APIRequest" where
  "APIRequest_init menc wk d write mp =
     (let d' = init_data wk d write;
          enc = (if mp then (case menc d' of (datagen, h) \<Rightarrow> Inr (concat datagen, h))
                 else (case urlencode d' of
                         Inl e \<Rightarrow> Inl e
                       | Inr s \<Rightarrow> Inr (s, [(''Content-Type'', ''application/x-www-form-urlencoded''),
                                           (''Content-Length'', str_nat (length s))])))
      in case enc of
           Inl e \<Rightarrow> Inl e
         | Inr (s, h) \<Rightarrow>
             (let h' = AList.update ''Accept-Encoding'' ''gzip''
                         (AList.update ''User-agent'' (useragent wk) h)
              in Inr \<lparr> sleep = 5, data = d', iswrite = write, multipart = mp,
                       encodeddata = s, headers = h', wiki = wk, response = None,
                       request = \<lparr> url = apibase wk, body = s, hdrs = h' \<rparr>,
                       continues = {}, generator = [] \<rparr>))"

text \<open>
  \<^verbatim>\<open>changeParam(param, value)\<close>. The object is mutated in place, so the result carries the
  object as it is when the method returns or raises.
\<close>

definition changeParam ::
  "multipart_encode \<Rightarrow> APIRequest \<Rightarrow> string \<Rightarrow> pyval \<Rightarrow> (pyerror + unit) \<times> APIRequest" where
  "changeParam menc r param v =
     (if param = ''format'' then (Inl (APIError [PStr ''You can not change the result format'']), r)
      else
        let r1 = r\<lparr> data := AList.update param v (data r) \<rparr> in
        if multipart r1 then
          (case menc (data r1) of (datagen, h) \<Rightarrow>
             (case pop_header ''Content-Length'' (headers r1) of
                Inl e \<Rightarrow> (Inl e, r1)
              | Inr h1 \<Rightarrow>
                 (case pop_header ''Content-Type'' h1 of
                    Inl e \<Rightarrow> (Inl e, r1\<lparr> headers := h1 \<rparr>)
                  | Inr h2 \<Rightarrow>
                     (let h3 = update_headers h h2; s = concat datagen
                      in (Inr (), r1\<lparr> headers := h3, encodeddata := s,
                                      request := \<lparr> url = apibase (wiki r1), body = s, hdrs = h3 \<rparr> \<rparr>)))))
        else
          (case urlencode (data r1) of
             Inl e \<Rightarrow> (Inl e, r1)
           | Inr s \<Rightarrow>
              (let h3 = AList.update ''Content-Type'' ''application/x-www-form-urlencoded''
                          (AList.update ''Content-Length'' (str_nat (length s)) (headers r1))
               in (Inr (), r1\<lparr> encodeddata := s, headers := h3,
                               request := \<lparr> url = apibase (wiki r1), body = s, hdrs = h3 \<rparr> \<rparr>))))"

subsection \<open>Operations on values\<close>

text \<open>
  \<^verbatim>\<open>k in v\<close> for a string \<^verbatim>\<open>k\<close>: a key test on a dict, a membership test on a list, a
  substring test on a string, and a TypeError on the rest. On an association list with a
  repeated key the first occurrence is the entry.
\<close>

fun py_contains :: "string \<Rightarrow> pyval \<Rightarrow> pyerror + bool" where
  "py_contains k (PDict d) = Inr (k \<in> fst ` set d)"
| "py_contains k (PList xs) = Inr (PStr k \<in> set xs)"
| "py_contains k (PStr s) = Inr (substring k s)"
| "py_contains k (PBytes b) = Inl (TypeError ''a bytes-like object is required, not str'')"
| "py_contains k PNone = Inl (TypeError ''argument of type NoneType is not iterable'')"
| "py_contains k (PBool b) = Inl (TypeError ''argument of type bool is not iterable'')"
| "py_contains k (PInt i) = Inl (TypeError ''argument of type int is not iterable'')"

text \<open>\<^verbatim>\<open>v[k]\<close> for a string \<^verbatim>\<open>k\<close>.\<close>

fun py_getitem :: "pyval \<Rightarrow> string \<Rightarrow> pyerror + pyval" where
  "py_getitem (PDict d) k = (case map_of d k of Some x \<Rightarrow> Inr x | None \<Rightarrow> Inl (KeyError k))"
| "py_getitem (PList xs) k = Inl (TypeError ''list indices must be integers or slices, not str'')"
| "py_getitem (PStr s) k = Inl (TypeError ''string indices must be integers'')"
| "py_getitem (PBytes b) k = Inl (TypeError ''byte indices must be integers or slices, not str'')"
| "py_getitem PNone k = Inl (TypeError ''NoneType object is not subscriptable'')"
| "py_getitem (PBool b) k = Inl (TypeError ''bool object is not subscriptable'')"
| "py_getitem (PInt i) k = Inl (TypeError ''int object is not subscriptable'')"

text \<open>\<^verbatim>\<open>v[k] = x\<close> for a string \<^verbatim>\<open>k\<close>; the value returned is \<^verbatim>\<open>v\<close> after the assignment.\<close>

fun py_setitem :: "pyval \<Rightarrow> string \<Rightarrow> pyval \<Rightarrow> pyerror + pyval" where
  "py_setitem (PDict d) k x = Inr (PDict (AList.update k x d))"
| "py_setitem (PList xs) k x = Inl (TypeError ''list indices must be integers or slices, not str'')"
| "py_setitem v k x = Inl (TypeError ''object does not support item assignment'')"

text \<open>Truth value of a value (\<^verbatim>\<open>not data\<close>).\<close>

fun py_truthy :: "pyval \<Rightarrow> bool" where
  "py_truthy PNone = False"
| "py_truthy (PBool b) = b"
| "py_truthy (PInt i) = (i \<noteq> 0)"
| "py_truthy (PStr s) = (s \<noteq> [])"
| "py_truthy (PBytes b) = (b \<noteq> [])"
| "py_truthy (PList xs) = (xs \<noteq> [])"
| "py_truthy (PDict d) = (d \<noteq> [])"

text \<open>The elements a \<^verbatim>\<open>for\<close> loop over a value visits.\<close>

fun py_iter :: "pyval \<Rightarrow> pyerror + pyval list" where
  "py_iter (PList xs) = Inr xs"
| "py_iter (PDict d) = Inr (map (\<lambda>kv. PStr (fst kv)) d)"
| "py_iter (PStr s) = Inr (map (\<lambda>c. PStr [c]) s)"
| "py_iter (PBytes b) = Inr (map (\<lambda>c. PInt (of_char c)) b)"
| "py_iter PNone = Inl (TypeError ''NoneType object is not iterable'')"
| "py_iter (PBool b) = Inl (TypeError ''bool object is not iterable'')"
| "py_iter (PInt i) = Inl (TypeError ''int object is not iterable'')"

text \<open>\<^verbatim>\<open>v.keys()\<close>: only a dict has the method.\<close>

fun py_keys :: "pyval \<Rightarrow> pyerror + string list" where
  "py_keys (PDict d) = Inr (map fst d)"
| "py_keys v = Inl (AttributeError ''object has no attribute keys'')"

subsection \<open>Sequencing of operations that may raise\<close>

definition ebind :: "pyerror + 'a \<Rightarrow> ('a \<Rightarrow> pyerror + 'b) \<Rightarrow> pyerror + 'b" where
  "ebind m f = (case m of Inl e \<Rightarrow> Inl e | Inr x \<Rightarrow> f x)"

subsection \<open>The result merger\<close>

text \<open>
  A Python set of item tuples. Two tuples are the same element when they have the same
  length and, position by position, the same key and equal values, where \<^verbatim>\<open>True == 1\<close>
  and \<^verbatim>\<open>False == 0\<close>. A list or dict value cannot be hashed. The set is kept as the list
  of its elements in the order they were first added; Python does not fix the order in
  which a set is iterated.
\<close>

fun py_hashable :: "pyval \<Rightarrow> bool" where
  "py_hashable (PList xs) = False"
| "py_hashable (PDict d) = False"
| "py_hashable v = True"

fun py_num :: "pyval \<Rightarrow> int option" where
  "py_num (PBool b) = Some (if b then 1 else 0)"
| "py_num (PInt i) = Some i"
| "py_num v = None"

definition scalar_eq :: "pyval \<Rightarrow> pyval \<Rightarrow> bool" where
  "scalar_eq a b =
     (case (py_num a, py_num b) of
        (Some x, Some y) \<Rightarrow> x = y
      | (None, None) \<Rightarrow> a = b
      | _ \<Rightarrow> False)"

definition items_eq :: "pydict \<Rightarrow> pydict \<Rightarrow> bool" where
  "items_eq a b = list_all2 (\<lambda>x y. fst x = fst y \<and> scalar_eq (snd x) (snd y)) a b"

definition set_add :: "pydict \<Rightarrow> pydict list \<Rightarrow> pydict list" where
  "set_add t S = (if list_ex (items_eq t) S then S else S @ [t])"

text \<open>\<^verbatim>\<open>{tuple(entry.items()) for entry in xs}\<close>, built by adding to \<open>S\<close>.\<close>

fun item_tuples :: "pyval list \<Rightarrow> pydict list \<Rightarrow> pyerror + pydict list" where
  "item_tuples [] S = Inr S"
| "item_tuples (PDict d # es) S =
     (if list_all (\<lambda>kv. py_hashable (snd kv)) d then item_tuples es (set_add d S)
      else Inl (TypeError ''unhashable type''))"
| "item_tuples (e # es) S = Inl (AttributeError ''object has no attribute items'')"

text \<open>Lines 370 to 373: both sets, \<^verbatim>\<open>retset.update(newset)\<close>, and the list of dicts.\<close>

definition merge_entries :: "pyval \<Rightarrow> pyval \<Rightarrow> pyerror + pyval" where
  "merge_entries retlist newlist =
     ebind (py_iter retlist) (\<lambda>a.
     ebind (item_tuples a []) (\<lambda>retset.
     ebind (py_iter newlist) (\<lambda>b.
     ebind (item_tuples b []) (\<lambda>newset.
       Inr (PList (map PDict (foldl (\<lambda>S t. set_add t S) retset newset)))))))"

text \<open>\<^verbatim>\<open>ret["query"]["pages"][key] = page\<close>; the value returned is \<^verbatim>\<open>ret\<close> afterwards.\<close>

definition set_query_page :: "pyval \<Rightarrow> string \<Rightarrow> pyval \<Rightarrow> pyerror + pyval" where
  "set_query_page ret key page =
     ebind (py_getitem ret ''query'') (\<lambda>q.
     ebind (py_getitem q ''pages'') (\<lambda>ps.
     ebind (py_setitem ps key page) (\<lambda>ps'.
     ebind (py_setitem q ''pages'' ps') (\<lambda>q'.
       py_setitem ret ''query'' q'))))"

text \<open>One pass of the loop \<^verbatim>\<open>for key in new["query"]["pages"].keys()\<close> (lines 361 to 373).\<close>

definition combine_page :: "string \<Rightarrow> pyval \<Rightarrow> pyval \<Rightarrow> string \<Rightarrow> pyerror + pyval" where
  "combine_page ty ret new key =
     ebind (py_getitem ret ''query'') (\<lambda>oq.
     ebind (py_getitem oq ''pages'') (\<lambda>ops.
     ebind (py_contains key ops) (\<lambda>present.
     ebind (py_getitem new ''query'') (\<lambda>nq.
     ebind (py_getitem nq ''pages'') (\<lambda>nps.
     ebind (py_getitem nps key) (\<lambda>npage.
       if \<not> present then set_query_page ret key npage
       else
         ebind (py_contains ty npage) (\<lambda>in_new.
           if \<not> in_new then Inr ret
           else
             ebind (py_getitem ops key) (\<lambda>opage.
             ebind (py_contains ty opage) (\<lambda>in_ret.
               if \<not> in_ret then
                 ebind (py_getitem npage ty) (\<lambda>nl.
                 ebind (py_setitem opage ty nl) (\<lambda>opage'.
                   set_query_page ret key opage'))
               else
                 ebind (py_getitem opage ty) (\<lambda>ol.
                 ebind (py_getitem npage ty) (\<lambda>nl.
                 ebind (merge_entries ol nl) (\<lambda>merged.
                 ebind (py_setitem opage ty merged) (\<lambda>opage'.
                   set_query_page ret key opage')))))))))))))"

fun combine_pages :: "string \<Rightarrow> pyval \<Rightarrow> pyval \<Rightarrow> string list \<Rightarrow> pyerror + pyval" where
  "combine_pages ty ret new [] = Inr ret"
| "combine_pages ty ret new (key # keys) =
     ebind (combine_page ty ret new key) (\<lambda>ret'. combine_pages ty ret' new keys)"

text \<open>
  \<^verbatim>\<open>resultCombine(type, old, new)\<close>. \<^verbatim>\<open>ret\<close> is \<^verbatim>\<open>old\<close> itself, changed in place; the value
  returned here is that object after the call. \<^verbatim>\<open>extend\<close> exists on a list only.
\<close>

definition resultCombine :: "string \<Rightarrow> pyval \<Rightarrow> pyval \<Rightarrow> pyerror + pyval" where
  "resultCombine ty old new =
     ebind (py_getitem new ''query'') (\<lambda>nq.
     ebind (py_contains ty nq) (\<lambda>basic.
       if basic then
         ebind (py_getitem old ''query'') (\<lambda>oq.
         ebind (py_getitem oq ty) (\<lambda>ol.
           case ol of
             PList xs \<Rightarrow>
               ebind (py_getitem nq ty) (\<lambda>nl.
               ebind (py_iter nl) (\<lambda>ys.
               ebind (py_setitem oq ty (PList (xs @ ys))) (\<lambda>oq'.
                 py_setitem old ''query'' oq')))
           | _ \<Rightarrow> Inl (AttributeError ''object has no attribute extend'')))
       else
         ebind (py_getitem nq ''pages'') (\<lambda>nps.
         ebind (py_keys nps) (\<lambda>keys.
           combine_pages ty old new keys))))"

subsection \<open>The legacy continuation engine: choosing the key\<close>

text \<open>
  \<^verbatim>\<open>possiblecontinues[0]\<close> and \<^verbatim>\<open>keylist[0]\<close> subscript the result of \<^verbatim>\<open>dict.keys()\<close>. In
  Python 3 that is a view object, which has no \<^verbatim>\<open>__getitem__\<close>: the subscript raises
  TypeError whatever the view holds.
\<close>

definition keys_subscript :: "string list \<Rightarrow> nat \<Rightarrow> pyerror + string" where
  "keys_subscript ks i = Inl (TypeError ''dict_keys object is not subscriptable'')"

text \<open>The inner loop: the first key with \<^verbatim>\<open>len(key) < 11\<close>, if the loop breaks.\<close>

definition first_short :: "string list \<Rightarrow> string option" where
  "first_short keylist = find (\<lambda>key. length key < 11) keylist"

text \<open>
  The loop \<^verbatim>\<open>for posskey in possiblecontinues\<close> (lines 236 to 244) with its variables
  \<^verbatim>\<open>key1\<close> and \<^verbatim>\<open>key2\<close>: \<^term>\<open>Some\<close> when it breaks, \<^term>\<open>None\<close> when it runs to its
  end, where the \<^verbatim>\<open>else\<close> clause follows.
\<close>

fun scan_continues :: "pyval \<Rightarrow> string list \<Rightarrow> string \<Rightarrow> string \<Rightarrow> pyerror + (string \<times> string) option" where
  "scan_continues qc [] key1 key2 = Inr None"
| "scan_continues qc (posskey # rest) key1 key2 =
     ebind (py_getitem qc posskey) (\<lambda>inner.
     ebind (py_keys inner) (\<lambda>keylist.
       case first_short keylist of
         Some key \<Rightarrow> if posskey \<noteq> [] then Inr (Some (posskey, key))
                     else scan_continues qc rest posskey key
       | None \<Rightarrow> if key1 \<noteq> [] then Inr (Some (key1, key2))
                 else scan_continues qc rest key1 key2))"

text \<open>
  Lines 220 to 247, for \<^verbatim>\<open>qc = res["query-continue"]\<close>: the pair \<^verbatim>\<open>(key1, key2)\<close> the loop
  body goes on with.
\<close>

definition select_continue :: "pyval \<Rightarrow> pyerror + (string \<times> string)" where
  "select_continue qc =
     ebind (py_keys qc) (\<lambda>possiblecontinues.
       if length possiblecontinues = 1 then
         ebind (keys_subscript possiblecontinues 0) (\<lambda>key1.
         ebind (py_getitem qc key1) (\<lambda>inner.
         ebind (py_keys inner) (\<lambda>keylist.
           if length keylist = 1 then
             ebind (keys_subscript keylist 0) (\<lambda>key2. Inr (key1, key2))
           else
             (case first_short keylist of
                Some key \<Rightarrow> Inr (key1, key)
              | None \<Rightarrow> ebind (keys_subscript keylist 0) (\<lambda>key2. Inr (key1, key2))))))
       else
         ebind (scan_continues qc possiblecontinues [] []) (\<lambda>found.
           case found of
             Some pair \<Rightarrow> Inr pair
           | None \<Rightarrow>
               ebind (keys_subscript possiblecontinues 0) (\<lambda>key1.
               ebind (py_getitem qc key1) (\<lambda>inner.
               ebind (py_keys inner) (\<lambda>keylist.
               ebind (keys_subscript keylist 0) (\<lambda>key2. Inr (key1, key2)))))))"

text \<open>
  Lines 248 to 251: an \<^verbatim>\<open>int\<close> value is passed on, a \<^verbatim>\<open>str\<close> is encoded to \<^verbatim>\<open>bytes\<close>, and
  the other values have no \<^verbatim>\<open>encode\<close>.
\<close>

definition continue_value :: "pyval \<Rightarrow> string \<Rightarrow> string \<Rightarrow> pyerror + pyval" where
  "continue_value qc key1 key2 =
     ebind (py_getitem qc key1) (\<lambda>inner.
     ebind (py_getitem inner key2) (\<lambda>v.
       case v of
         PInt i \<Rightarrow> Inr (PInt i)
       | PBool b \<Rightarrow> Inr (PBool b)
       | PStr s \<Rightarrow> Inr (PBytes (utf8 s))
       | _ \<Rightarrow> Inl (AttributeError ''object has no attribute encode'')))"

text \<open>
  Lines 252 to 258. \<^verbatim>\<open>params\<close> is \<^verbatim>\<open>self.data\<close> itself, so the request's own mapping
  changes; popping every tracked key removes the entries with those keys.
\<close>

definition is_generator_key :: "string \<Rightarrow> bool" where
  "is_generator_key key2 = (length key2 \<ge> 11 \<and> is_prefix ''g'' key2)"

definition track_continue :: "APIRequest \<Rightarrow> string \<Rightarrow> pyval \<Rightarrow> APIRequest" where
  "track_continue r key2 cont =
     (let r1 = (if is_generator_key key2
                then r\<lparr> generator := key2,
                        data := filter (\<lambda>kv. fst kv \<notin> continues r) (data r) \<rparr>
                else r\<lparr> continues := insert key2 (continues r) \<rparr>)
      in r1\<lparr> data := AList.update key2 cont (data r1) \<rparr>)"

subsection \<open>The network and the clock\<close>

text \<open>
  What \<^verbatim>\<open>self.opener.open(self.request)\<close> does is given by the world: the \<open>i\<close>-th call
  either raises or answers. A response carries its headers, what
  \<^verbatim>\<open>self.response.get("Content-encoding")\<close> gives (\<^term>\<open>None\<close> without that header), and
  what \<^verbatim>\<open>json.loads\<close> makes of the body after the gzip decompression (\<^term>\<open>None\<close> when
  it raises). The world also logs every request opened and every argument of
  \<^verbatim>\<open>time.sleep\<close>, in seconds.
\<close>

record http_response =
  info :: headers
  content_encoding :: "string option"
  parsed :: "pyval option"

text \<open>
  With the encoding \<^verbatim>\<open>gzip\<close> or \<^verbatim>\<open>x-gzip\<close>, \<^verbatim>\<open>__getRaw\<close> hands on a \<^verbatim>\<open>GzipFile\<close> over the
  body in place of the \<^verbatim>\<open>HTTPResponse\<close>.
\<close>

definition gzipped :: "http_response \<Rightarrow> bool" where
  "gzipped resp = (content_encoding resp = Some ''gzip'' \<or> content_encoding resp = Some ''x-gzip'')"

datatype outcome = Raises string | Responds http_response

record world =
  net :: "nat \<Rightarrow> outcome"
  calls :: nat
  opened :: "http_request list"
  slept :: "rat list"

definition time_sleep :: "rat \<Rightarrow> world \<Rightarrow> world" where
  "time_sleep d w = w\<lparr> slept := slept w @ [d] \<rparr>"

definition opener_open :: "http_request \<Rightarrow> world \<Rightarrow> outcome \<times> world" where
  "opener_open rq w = (net w (calls w), w\<lparr> calls := calls w + 1, opened := opened w @ [rq] \<rparr>)"

subsection \<open>The transport executor\<close>

text \<open>
  \<^verbatim>\<open>__getRaw\<close>. A response object is truthy, so the loop ends with the first answer. When
  \<^verbatim>\<open>catcherror\<close> is \<^verbatim>\<open>None\<close> the exception is not handled and leaves the method.
\<close>

function getRaw :: "world \<Rightarrow> APIRequest \<Rightarrow> (pyerror + http_response) \<times> world \<times> APIRequest" where
  "getRaw w r =
     (case opener_open (request r) w of
        (Responds resp, w1) \<Rightarrow> (Inr resp, w1, r\<lparr> response := Some (info resp) \<rparr>)
      | (Raises e, w1) \<Rightarrow>
          if sleep r \<ge> maxwaittime (wiki r) \<or> iswrite r then (Inl (Uncaught e), w1, r)
          else getRaw (time_sleep (of_int (sleep r) + 1 / 2) w1) (r\<lparr> sleep := sleep r + 5 \<rparr>))"
  by pat_completeness auto
termination
  by (relation "measure (\<lambda>(w, r). nat (maxwaittime (wiki r) - sleep r))") auto

declare getRaw.simps [simp del]

text \<open>
  How many times the loop can catch an exception before the delay is no longer below
  \<^verbatim>\<open>maxwaittime\<close>: the number of \<open>k\<close> with \<^verbatim>\<open>sleep + 5 * k < maxwaittime\<close>.
\<close>

definition retries :: "APIRequest \<Rightarrow> nat" where
  "retries r = nat ((maxwaittime (wiki r) - sleep r + 4) div 5)"

subsection \<open>The response decoder\<close>

definition is_digit :: "char \<Rightarrow> bool" where
  "is_digit c = (c \<in> set ''0123456789'')"

definition int_of_digits :: "string \<Rightarrow> int" where
  "int_of_digits ds = foldl (\<lambda>n c. 10 * n + (int (of_char c) - 48)) 0 ds"

text \<open>
  \<^verbatim>\<open>int(re.search("(\d+) seconds", text).group(1))\<close>: the leftmost position at which a run
  of digits is followed by \<^verbatim>\<open>" seconds"\<close>; \<^term>\<open>None\<close> when there is no match (then
  \<^verbatim>\<open>.group\<close> raises AttributeError on \<^verbatim>\<open>None\<close>).
\<close>

fun search_seconds :: "string \<Rightarrow> int option" where
  "search_seconds [] = None"
| "search_seconds (c # cs) =
     (if is_digit c \<and> is_prefix '' seconds'' (dropWhile is_digit (c # cs))
      then Some (int_of_digits (takeWhile is_digit (c # cs)))
      else search_seconds cs)"

text \<open>
  The body of the \<^verbatim>\<open>try\<close> in \<^verbatim>\<open>__parseJSON\<close>: \<^term>\<open>Inl\<close> is any exception raised in it,
  \<^term>\<open>Inr (Some content)\<close> is falling through to \<^verbatim>\<open>return content\<close>, and
  \<^term>\<open>Inr None\<close> is the \<^verbatim>\<open>return False\<close> after the maxlag sleep.
\<close>

definition parse_try :: "world \<Rightarrow> APIRequest \<Rightarrow> http_response \<Rightarrow> (pyerror + pyval option) \<times> world" where
  "parse_try w r resp =
     (case parsed resp of
        None \<Rightarrow> (Inl (ValueError ''json.loads''), w)
      | Some content \<Rightarrow>
         (case py_contains ''error'' content of
            Inl e \<Rightarrow> (Inl e, w)
          | Inr False \<Rightarrow> (Inr (Some content), w)
          | Inr True \<Rightarrow>
             (case py_getitem content ''error'' of
                Inl e \<Rightarrow> (Inl e, w)
              | Inr err \<Rightarrow>
                 (case py_getitem err ''code'' of
                    Inl e \<Rightarrow> (Inl e, w)
                  | Inr code \<Rightarrow>
                     if code = PStr ''maxlag'' then
                       (case py_getitem err ''info'' of
                          Inl e \<Rightarrow> (Inl e, w)
                        | Inr (PStr txt) \<Rightarrow>
                           (case search_seconds txt of
                              None \<Rightarrow> (Inl (AttributeError ''NoneType object has no attribute group''), w)
                            | Some lag \<Rightarrow>
                               (let lagtime = min lag (maxwaittime (wiki r)) in
                                if of_int lagtime + (1 / 2 :: rat) < 0
                                then (Inl (ValueError ''sleep length must be non-negative''), w)
                                else (Inr None, time_sleep (of_int lagtime + 1 / 2) w)))
                        | Inr _ \<Rightarrow> (Inl (TypeError ''expected string or bytes-like object''), w))
                     else (Inr (Some content), w)))))"

text \<open>
  The bare \<^verbatim>\<open>except\<close> (lines 328 to 337) starts with \<^verbatim>\<open>data.seek(0)\<close>. An
  \<^verbatim>\<open>HTTPResponse\<close> cannot seek: the call raises \<^verbatim>\<open>io.UnsupportedOperation\<close>. A
  \<^verbatim>\<open>GzipFile\<close> rewinds, but its \<^verbatim>\<open>read()\<close> gives \<^verbatim>\<open>bytes\<close>, and the test of the
  string \<^verbatim>\<open>"MediaWiki API is not enabled ..."\<close> in it raises TypeError. So an exception
  leaves the handler in both cases, before \<^verbatim>\<open>raise APIDisabled\<close> and before
  \<^verbatim>\<open>return False\<close>.
\<close>

definition except_handler :: "http_response \<Rightarrow> pyerror" where
  "except_handler resp =
     (if gzipped resp then TypeError ''a bytes-like object is required, not str''
      else UnsupportedOperation ''seek'')"

text \<open>
  \<^verbatim>\<open>__parseJSON\<close>: the \<^verbatim>\<open>try\<close> with its bare \<^verbatim>\<open>except\<close>. The result \<^term>\<open>PBool False\<close> is
  the \<^verbatim>\<open>return False\<close> after the maxlag sleep. A dict result is the \<^verbatim>\<open>APIResult\<close>, a
  list result the \<^verbatim>\<open>APIListResult\<close>; the \<^verbatim>\<open>response\<close> attribute attached to them is
  left out.
\<close>

definition parseJSON :: "world \<Rightarrow> APIRequest \<Rightarrow> http_response \<Rightarrow> (pyerror + pyval) \<times> world" where
  "parseJSON w r resp =
     (case parse_try w r resp of
        (Inr (Some content), w1) \<Rightarrow> (Inr content, w1)
      | (Inr None, w1) \<Rightarrow> (Inr (PBool False), w1)
      | (Inl e, w1) \<Rightarrow> (Inl (except_handler resp), w1))"

text \<open>\<^verbatim>\<open>type(data) is APIListResult\<close>\<close>

fun is_APIListResult :: "pyval \<Rightarrow> bool" where
  "is_APIListResult (PList xs) = True"
| "is_APIListResult v = False"

text \<open>
  The loop \<^verbatim>\<open>while not data\<close> of \<^verbatim>\<open>query\<close> (lines 169 to 174), which \<^verbatim>\<open>queryGen\<close>
  repeats word for word (lines 194 to 199). It has no bound of its own, so it runs on
  fuel: \<^term>\<open>None\<close> means the fuel ran out before the loop ended.
\<close>

fun fetch :: "nat \<Rightarrow> world \<Rightarrow> APIRequest \<Rightarrow> ((pyerror + pyval) \<times> world \<times> APIRequest) option" where
  "fetch 0 w r = None"
| "fetch (Suc n) w r =
     (case getRaw w r of
        (Inl e, w1, r1) \<Rightarrow> Some (Inl e, w1, r1)
      | (Inr rawdata, w1, r1) \<Rightarrow>
         (case parseJSON w1 r1 rawdata of
            (Inl e, w2) \<Rightarrow> Some (Inl e, w2, r1)
          | (Inr d, w2) \<Rightarrow>
             if \<not> py_truthy d \<and> is_APIListResult d then Some (Inr d, w2, r1)
             else if \<not> py_truthy d then fetch n w2 r1
             else Some (Inr d, w2, r1)))"

text \<open>
  The check after the loop (lines 175 to 178, repeated at 200 to 203): \<^term>\<open>Inr ()\<close> when
  nothing is raised.
\<close>

definition raise_on_error :: "APIRequest \<Rightarrow> pyval \<Rightarrow> pyerror + unit" where
  "raise_on_error r d =
     (case py_contains ''error'' d of
        Inl e \<Rightarrow> Inl e
      | Inr False \<Rightarrow> Inr ()
      | Inr True \<Rightarrow>
         (case py_getitem d ''error'' of
            Inl e \<Rightarrow> Inl e
          | Inr err \<Rightarrow>
             (case (if iswrite r
                    then (case py_getitem err ''code'' of
                            Inl e \<Rightarrow> Inl e
                          | Inr code \<Rightarrow> Inr (code = PStr ''blocked''))
                    else Inr False) of
                Inl e \<Rightarrow> Inl e
              | Inr True \<Rightarrow>
                 (case py_getitem err ''info'' of
                    Inl e \<Rightarrow> Inl e
                  | Inr i \<Rightarrow> Inl (UserBlocked i))
              | Inr False \<Rightarrow>
                 (case py_getitem err ''code'' of
                    Inl e \<Rightarrow> Inl e
                  | Inr code \<Rightarrow>
                     (case py_getitem err ''info'' of
                        Inl e \<Rightarrow> Inl e
                      | Inr i \<Rightarrow> Inl (APIError [code, i]))))))"

subsection \<open>query and the legacy continuation loop\<close>

text \<open>Lines 169 to 178: the loop, then the check for an error payload.\<close>

definition fetch_checked :: "nat \<Rightarrow> world \<Rightarrow> APIRequest \<Rightarrow> ((pyerror + pyval) \<times> world \<times> APIRequest) option" where
  "fetch_checked fuel w r =
     (case fetch fuel w r of
        None \<Rightarrow> None
      | Some (Inl e, w1, r1) \<Rightarrow> Some (Inl e, w1, r1)
      | Some (Inr d, w1, r1) \<Rightarrow>
         (case raise_on_error r1 d of
            Inl e \<Rightarrow> Some (Inl e, w1, r1)
          | Inr u \<Rightarrow> Some (Inr d, w1, r1)))"

text \<open>
  \<^verbatim>\<open>req.query(False)\<close>, as \<^verbatim>\<open>__longQuery\<close> calls it: the warning is skipped, and in line 179
  \<^verbatim>\<open>"query-continue" in data\<close> is evaluated before the conjunction comes out false.
\<close>

definition query_False :: "nat \<Rightarrow> world \<Rightarrow> APIRequest \<Rightarrow> ((pyerror + pyval) \<times> world \<times> APIRequest) option" where
  "query_False fuel w r =
     (case fetch_checked fuel w r of
        None \<Rightarrow> None
      | Some (Inl e, w1, r1) \<Rightarrow> Some (Inl e, w1, r1)
      | Some (Inr d, w1, r1) \<Rightarrow>
         (case py_contains ''query-continue'' d of
            Inl e \<Rightarrow> Some (Inl e, w1, r1)
          | Inr c \<Rightarrow> Some (Inr d, w1, r1)))"

text \<open>\<^verbatim>\<open>len(res["query-continue"].keys()) if "query-continue" in res else 0\<close>\<close>

definition numkeys_of :: "pyval \<Rightarrow> pyerror + nat" where
  "numkeys_of res =
     ebind (py_contains ''query-continue'' res) (\<lambda>c.
       if c then ebind (py_getitem res ''query-continue'') (\<lambda>qc.
                 ebind (py_keys qc) (\<lambda>ks. Inr (length ks)))
       else Inr 0)"

text \<open>\<^verbatim>\<open>for type in possiblecontinues: total = resultCombine(type, total, res)\<close>\<close>

fun combine_all :: "string list \<Rightarrow> pyval \<Rightarrow> pyval \<Rightarrow> pyerror + pyval" where
  "combine_all [] total0 res = Inr total0"
| "combine_all (ty # tys) total0 res =
     ebind (resultCombine ty total0 res) (\<lambda>total1. combine_all tys total1 res)"

text \<open>
  The part of the loop body before the new request (lines 220 to 258): the keys of the
  previous response and the request object with its parameters advanced.
\<close>

definition advance :: "APIRequest \<Rightarrow> pyval \<Rightarrow> pyerror + (string list \<times> APIRequest)" where
  "advance r res =
     ebind (py_getitem res ''query-continue'') (\<lambda>qc.
     ebind (py_keys qc) (\<lambda>possiblecontinues.
     ebind (select_continue qc) (\<lambda>(key1, key2).
     ebind (continue_value qc key1 key2) (\<lambda>cont.
       Inr (possiblecontinues, track_continue r key2 cont)))))"

text \<open>
  The loop \<^verbatim>\<open>while numkeys > 0\<close> of \<^verbatim>\<open>__longQuery\<close>, on fuel. The request built in the
  body is a fresh object (not a write, not multipart) that is dropped after its query.
\<close>

fun longQuery_loop ::
  "nat \<Rightarrow> multipart_encode \<Rightarrow> world \<Rightarrow> APIRequest \<Rightarrow> pyval \<Rightarrow> pyval \<Rightarrow> nat
     \<Rightarrow> ((pyerror + pyval) \<times> world \<times> APIRequest) option" where
  "longQuery_loop 0 menc w r total0 res numkeys = None"
| "longQuery_loop (Suc n) menc w r total0 res numkeys =
     (if numkeys > 0 then
        (case advance r res of
           Inl e \<Rightarrow> Some (Inl e, w, r)
         | Inr (possiblecontinues, r1) \<Rightarrow>
            (case APIRequest_init menc (wiki r1) (data r1) False False of
               Inl e \<Rightarrow> Some (Inl e, w, r1)
             | Inr req \<Rightarrow>
                (case query_False (Suc n) w req of
                   None \<Rightarrow> None
                 | Some (Inl e, w1, req1) \<Rightarrow> Some (Inl e, w1, r1)
                 | Some (Inr res1, w1, req1) \<Rightarrow>
                    (case combine_all possiblecontinues total0 res1 of
                       Inl e \<Rightarrow> Some (Inl e, w1, r1)
                     | Inr total1 \<Rightarrow>
                        (case numkeys_of res1 of
                           Inl e \<Rightarrow> Some (Inl e, w1, r1)
                         | Inr numkeys1 \<Rightarrow> longQuery_loop n menc w1 r1 total1 res1 numkeys1)))))
      else Some (Inr total0, w, r))"

definition longQuery ::
  "nat \<Rightarrow> multipart_encode \<Rightarrow> world \<Rightarrow> APIRequest \<Rightarrow> pyval
     \<Rightarrow> ((pyerror + pyval) \<times> world \<times> APIRequest) option" where
  "longQuery fuel menc w r initialdata =
     (let r0 = r\<lparr> continues := {}, generator := [] \<rparr> in
      case ebind (py_getitem initialdata ''query-continue'') (\<lambda>qc.
           ebind (py_keys qc) (\<lambda>ks. Inr (length ks))) of
        Inl e \<Rightarrow> Some (Inl e, w, r0)
      | Inr numkeys \<Rightarrow> longQuery_loop fuel menc w r0 initialdata initialdata numkeys)"

text \<open>
  \<^verbatim>\<open>query(querycontinue)\<close>. With \<^verbatim>\<open>querycontinue\<close> true the first condition reads
  \<^verbatim>\<open>self.data["action"]\<close>, which raises KeyError when the parameter is missing; the warning
  itself changes nothing.
\<close>

definition query ::
  "nat \<Rightarrow> multipart_encode \<Rightarrow> world \<Rightarrow> APIRequest \<Rightarrow> bool
     \<Rightarrow> ((pyerror + pyval) \<times> world \<times> APIRequest) option" where
  "query fuel menc w r querycontinue =
     (if querycontinue \<and> map_of (data r) ''action'' = None then Some (Inl (KeyError ''action''), w, r)
      else
        case fetch_checked fuel w r of
          None \<Rightarrow> None
        | Some (Inl e, w1, r1) \<Rightarrow> Some (Inl e, w1, r1)
        | Some (Inr d, w1, r1) \<Rightarrow>
           (case py_contains ''query-continue'' d of
              Inl e \<Rightarrow> Some (Inl e, w1, r1)
            | Inr c \<Rightarrow>
               if c \<and> querycontinue then longQuery fuel menc w1 r1 d
               else Some (Inr d, w1, r1)))"

subsection \<open>queryGen: the streaming protocol\<close>

text \<open>
  \<^verbatim>\<open>queryGen\<close> is a generator. Its state between two calls of \<^verbatim>\<open>next\<close> is where it is
  suspended: not started, suspended at the \<^verbatim>\<open>yield\<close> with its locals \<^verbatim>\<open>reqcopy\<close> and
  \<^verbatim>\<open>data\<close>, or finished (after the \<^verbatim>\<open>break\<close>, or after an exception left it).
\<close>

datatype gen_state = GenStart | GenSuspended http_request pyval | GenDone

text \<open>
  \<^verbatim>\<open>for param in data["continue"]: self.changeParam(param, data["continue"][param])\<close> over
  the elements \<open>ps\<close> the loop visits. A parameter name that is an integer (an element of a
  list, used as its own index) is outside the model.
\<close>

fun apply_continue :: "multipart_encode \<Rightarrow> APIRequest \<Rightarrow> pyval \<Rightarrow> pyval list \<Rightarrow> (pyerror + unit) \<times> APIRequest" where
  "apply_continue menc r cont [] = (Inr (), r)"
| "apply_continue menc r cont (PStr param # ps) =
     (case py_getitem cont param of
        Inl e \<Rightarrow> (Inl e, r)
      | Inr v \<Rightarrow>
         (case changeParam menc r param v of
            (Inl e, r1) \<Rightarrow> (Inl e, r1)
          | (Inr u, r1) \<Rightarrow> apply_continue menc r1 cont ps))"
| "apply_continue menc r cont (PInt i # ps) = (Inl (OutsideModel ''integer parameter name''), r)"
| "apply_continue menc r cont (PBool b # ps) = (Inl (OutsideModel ''integer parameter name''), r)"
| "apply_continue menc r cont (p # ps) = (Inl (TypeError ''list indices must be integers or slices''), r)"

text \<open>Lines 194 to 204: fetch a page, check it, and suspend at the \<^verbatim>\<open>yield\<close>.\<close>

definition gen_fetch ::
  "nat \<Rightarrow> world \<Rightarrow> APIRequest \<Rightarrow> http_request
     \<Rightarrow> ((pyerror + pyval option) \<times> world \<times> APIRequest \<times> gen_state) option" where
  "gen_fetch fuel w r reqcopy =
     (case fetch_checked fuel w r of
        None \<Rightarrow> None
      | Some (Inl e, w1, r1) \<Rightarrow> Some (Inl e, w1, r1, GenDone)
      | Some (Inr d, w1, r1) \<Rightarrow> Some (Inr (Some d), w1, r1, GenSuspended reqcopy d))"

text \<open>
  One call of \<^verbatim>\<open>next\<close> on the generator: \<^term>\<open>Inr (Some page)\<close> is a page yielded,
  \<^term>\<open>Inr None\<close> is the end of the sequence (StopIteration).
\<close>

fun queryGen_next ::
  "nat \<Rightarrow> multipart_encode \<Rightarrow> world \<Rightarrow> APIRequest \<Rightarrow> gen_state
     \<Rightarrow> ((pyerror + pyval option) \<times> world \<times> APIRequest \<times> gen_state) option" where
  "queryGen_next fuel menc w r GenDone = Some (Inr None, w, r, GenDone)"
| "queryGen_next fuel menc w r GenStart =
     (let reqcopy = request r in
      case changeParam menc r ''continue'' (PStr []) of
        (Inl e, r1) \<Rightarrow> Some (Inl e, w, r1, GenDone)
      | (Inr u, r1) \<Rightarrow> gen_fetch fuel w r1 reqcopy)"
| "queryGen_next fuel menc w r (GenSuspended reqcopy d) =
     (case py_contains ''continue'' d of
        Inl e \<Rightarrow> Some (Inl e, w, r, GenDone)
      | Inr False \<Rightarrow> Some (Inr None, w, r, GenDone)
      | Inr True \<Rightarrow>
         (let r1 = r\<lparr> request := reqcopy \<rparr> in
          case py_getitem d ''continue'' of
            Inl e \<Rightarrow> Some (Inl e, w, r1, GenDone)
          | Inr cont \<Rightarrow>
             (case py_iter cont of
                Inl e \<Rightarrow> Some (Inl e, w, r1, GenDone)
              | Inr ps \<Rightarrow>
                 (case apply_continue menc r1 cont ps of
                    (Inl e, r2) \<Rightarrow> Some (Inl e, w, r2, GenDone)
                  | (Inr u, r2) \<Rightarrow> gen_fetch fuel w r2 reqcopy))))"

subsection \<open>Calling the generator several times\<close>

text \<open>
  A caller that asks the generator for at most \<open>k\<close> items: the results of the calls of
  \<^verbatim>\<open>next\<close> in order, stopping at the end of the sequence or at an exception, with the
  world and the request object as they are afterwards.
\<close>

fun take_pages ::
  "nat \<Rightarrow> nat \<Rightarrow> multipart_encode \<Rightarrow> world \<Rightarrow> APIRequest \<Rightarrow> gen_state
     \<Rightarrow> ((pyerror + pyval option) list \<times> world \<times> APIRequest \<times> gen_state) option" where
  "take_pages 0 fuel menc w r g = Some ([], w, r, g)"
| "take_pages (Suc k) fuel menc w r g =
     (case queryGen_next fuel menc w r g of
        None \<Rightarrow> None
      | Some (Inr (Some page), w1, r1, g1) \<Rightarrow>
         (case take_pages k fuel menc w1 r1 g1 of
            None \<Rightarrow> None
          | Some (rest, w2, r2, g2) \<Rightarrow> Some (Inr (Some page) # rest, w2, r2, g2))
      | Some (x, w1, r1, g1) \<Rightarrow> Some ([x], w1, r1, g1))"

subsection \<open>Example inputs\<close>

text \<open>A wiki with a short maximum wait, and a multipart encoder for requests that are not multipart.\<close>

definition example_wiki :: wiki where
  "example_wiki = \<lparr> apibase = ''https://example.org/w/api.php'', maxlag = 5, maxwaittime = 12,
                     assertval = None, useragent = ''wikitools3'' \<rparr>"

definition no_multipart :: multipart_encode where
  "no_multipart d = ([], [])"

definition example_data :: pydict where
  "example_data = [(''action'', PStr ''query''), (''generator'', PStr ''allpages''), (''prop'', PStr ''links'')]"

text \<open>The object \<^verbatim>\<open>APIRequest(wiki, example_data)\<close>, and the same as a write request.\<close>

definition example_headers :: headers where
  "example_headers = [(''Content-Type'', ''application/x-www-form-urlencoded''), (''Content-Length'', ''63''),
                      (''User-agent'', ''wikitools3''), (''Accept-Encoding'', ''gzip'')]"

definition example_body :: string where
  "example_body = ''action=query&generator=allpages&prop=links&format=json&maxlag=5''"

definition example_request :: APIRequest where
  "example_request =
     \<lparr> sleep = 5,
       data = [(''action'', PStr ''query''), (''generator'', PStr ''allpages''), (''prop'', PStr ''links''),
               (''format'', PStr ''json''), (''maxlag'', PInt 5)],
       iswrite = False, multipart = False,
       encodeddata = example_body,
       headers = example_headers,
       wiki = example_wiki, response = None,
       request = \<lparr> url = ''https://example.org/w/api.php'', body = example_body, hdrs = example_headers \<rparr>,
       continues = {}, generator = [] \<rparr>"

definition example_write :: APIRequest where
  "example_write = example_request\<lparr> iswrite := True \<rparr>"

text \<open>The same object after \<^verbatim>\<open>changeParam("continue", "")\<close>, as \<^verbatim>\<open>queryGen\<close> starts.\<close>

definition example_continue_headers :: headers where
  "example_continue_headers = [(''Content-Type'', ''application/x-www-form-urlencoded''), (''Content-Length'', ''73''),
                               (''User-agent'', ''wikitools3''), (''Accept-Encoding'', ''gzip'')]"

definition example_request_continue :: APIRequest where
  "example_request_continue =
     example_request\<lparr> data := data example_request @ [(''continue'', PStr [])],
                       encodeddata := example_body @ ''&continue='',
                       headers := example_continue_headers,
                       request := \<lparr> url = ''https://example.org/w/api.php'',
                                    body = example_body @ ''&continue='',
                                    hdrs = example_continue_headers \<rparr> \<rparr>"

text \<open>Worlds: nothing opened yet; a network that always fails; a response with a JSON body.\<close>

definition start_world :: "(nat \<Rightarrow> outcome) \<Rightarrow> world" where
  "start_world n = \<lparr> net = n, calls = 0, opened = [], slept = [] \<rparr>"

definition failing_net :: "nat \<Rightarrow> outcome" where
  "failing_net i = Raises ''URLError''"

definition json_response :: "pyval \<Rightarrow> http_response" where
  "json_response j = \<lparr> info = [(''Content-Type'', ''application/json'')], content_encoding = None,
                        parsed = Some j \<rparr>"

definition maxlag_error :: "string \<Rightarrow> pyval" where
  "maxlag_error msg = PDict [(''error'', PDict [(''code'', PStr ''maxlag''), (''info'', PStr msg)])]"

definition example_page :: pyval where
  "example_page = PDict [(''query'', PDict [(''pages'', PDict [(''1'', PDict [(''title'', PStr ''A'')])])])]"



definition vague_lag_net :: "nat \<Rightarrow> outcome" where
  "vague_lag_net i = (if i = 0 then Responds (json_response (maxlag_error ''Waiting for a database server''))
                      else Responds (json_response example_page))"

definition empty_list_net :: "nat \<Rightarrow> outcome" where
  "empty_list_net i = Responds (json_response (PList []))"

text \<open>
  Three pages of a generator query with a property: the first continues the property
  (\<^verbatim>\<open>plcontinue\<close>), the second continues the generator (\<^verbatim>\<open>gapcontinue\<close>), the third is
  the last.
\<close>

definition three_pages_net :: "nat \<Rightarrow> outcome" where
  "three_pages_net i =
     (if i = 0 then Responds (json_response (PDict
          [(''continue'', PDict [(''plcontinue'', PStr ''1|0|A''), (''continue'', PStr ''||'')]),
           (''query'', PDict [])]))
      else if i = 1 then Responds (json_response (PDict
          [(''continue'', PDict [(''gapcontinue'', PStr ''B''), (''continue'', PStr ''gapcontinue||'')]),
           (''query'', PDict [])]))
      else Responds (json_response (PDict [(''query'', PDict [])])))"

text \<open>
  A first answer of a legacy query that names one continuation key, as in
  \<^verbatim>\<open>{"query-continue": {"images": {"imcontinue": "foo"}}}\<close>.
\<close>

definition legacy_page :: pyval where
  "legacy_page = PDict [(''query-continue'', PDict [(''images'', PDict [(''imcontinue'', PStr ''foo'')])]),
                        (''query'', PDict [(''pages'', PDict [(''1'', PDict [(''title'', PStr ''A'')])])])]"

definition legacy_net :: "nat \<Rightarrow> outcome" where
  "legacy_net i = Responds (json_response legacy_page)"

text \<open>
  A first answer of a legacy query over a generator, whose only continuation key is the
  generator's: \<^verbatim>\<open>{"query-continue": {"allpages": {"gapcontinue": "B"}}}\<close>. The key
  \<^verbatim>\<open>gapcontinue\<close> has 11 characters and starts with \<^verbatim>\<open>g\<close>.
\<close>

definition generator_page :: pyval where
  "generator_page = PDict [(''query-continue'', PDict [(''allpages'', PDict [(''gapcontinue'', PStr ''B'')])]),
                           (''query'', PDict [(''pages'', PDict [(''1'', PDict [(''title'', PStr ''A'')])])])]"

definition generator_net :: "nat \<Rightarrow> outcome" where
  "generator_net i = Responds (json_response generator_page)"

text \<open>A request object on which the legacy loop already tracks \<^verbatim>\<open>plcontinue\<close>.\<close>

definition example_tracked :: APIRequest where
  "example_tracked = example_request\<lparr> data := data example_request @ [(''plcontinue'', PInt 7)],
                                       continues := {''plcontinue''} \<rparr>"

text \<open>
  Two answers for the page 1 whose \<^verbatim>\<open>links\<close> overlap; the entry for the title A has its
  fields in another order in the second answer.
\<close>

definition example_old :: pyval where
  "example_old = PDict [(''query'', PDict [(''pages'', PDict [(''1'', PDict
       [(''title'', PStr ''P''),
        (''links'', PList [PDict [(''ns'', PInt 0), (''title'', PStr ''A'')]])])])])]"

definition example_new :: pyval where
  "example_new = PDict [(''query'', PDict [(''pages'', PDict [(''1'', PDict
       [(''title'', PStr ''P''),
        (''links'', PList [PDict [(''title'', PStr ''A''), (''ns'', PInt 0)],
                           PDict [(''ns'', PInt 0), (''title'', PStr ''B'')]])])])])]"

text \<open>
  An aggregate with the page 1 and a new answer with the pages 1 and 2; the \<^verbatim>\<open>links\<close> of
  the page 1 share the entry for the title A.
\<close>

definition merge_old :: pyval where
  "merge_old = PDict [(''query'', PDict [(''pages'', PDict [(''1'', PDict
       [(''title'', PStr ''P''),
        (''links'', PList [PDict [(''ns'', PInt 0), (''title'', PStr ''A'')],
                           PDict [(''ns'', PInt 0), (''title'', PStr ''C'')]])])])])]"

definition merge_new :: pyval where
  "merge_new = PDict [(''query'', PDict [(''pages'', PDict
       [(''1'', PDict [(''title'', PStr ''P''),
                       (''links'', PList [PDict [(''ns'', PInt 0), (''title'', PStr ''A'')],
                                          PDict [(''ns'', PInt 0), (''title'', PStr ''B'')]])]),
        (''2'', PDict [(''title'', PStr ''Q''),
                       (''links'', PList [PDict [(''ns'', PInt 0), (''title'', PStr ''D'')]])])])])]"

subsection \<open>Reading a merged result\<close>

text \<open>\<^verbatim>\<open>ret["query"]["pages"][key]\<close> and \<^verbatim>\<open>ret["query"]["pages"][key][type]\<close>.\<close>

definition page_of :: "pyval \<Rightarrow> string \<Rightarrow> pyerror + pyval" where
  "page_of ret key =
     ebind (py_getitem ret ''query'') (\<lambda>q.
     ebind (py_getitem q ''pages'') (\<lambda>ps. py_getitem ps key))"

definition entries_of :: "pyval \<Rightarrow> string \<Rightarrow> string \<Rightarrow> pyerror + pyval" where
  "entries_of ret key ty = ebind (page_of ret key) (\<lambda>page. py_getitem page ty)"

text \<open>
  Python's \<^verbatim>\<open>==\<close> on two dicts with scalar values (keys not repeated): the same keys with
  equal values, in whatever order.
\<close>

definition fields_eq :: "pydict \<Rightarrow> pydict \<Rightarrow> bool" where
  "fields_eq a b =
     (length a = length b \<and>
      list_all (\<lambda>kv. case map_of b (fst kv) of Some v \<Rightarrow> scalar_eq (snd kv) v | None \<Rightarrow> False) a)"

text \<open>No two elements of the list are the same item tuple.\<close>

definition distinct_items :: "pydict list \<Rightarrow> bool" where
  "distinct_items S = (\<forall>i<length S. \<forall>j<length S. i \<noteq> j \<longrightarrow> \<not> items_eq (S ! i) (S ! j))"

text \<open>
  Lines 370 to 373 on two lists of flat dicts: the elements of \<^verbatim>\<open>retset\<close> after
  \<^verbatim>\<open>retset.update(newset)\<close>.
\<close>

definition merged_items :: "pydict list \<Rightarrow> pydict list \<Rightarrow> pydict list" where
  "merged_items as bs = foldl (\<lambda>S t. set_add t S) (foldl (\<lambda>S t. set_add t S) [] as)
                              (foldl (\<lambda>S t. set_add t S) [] bs)"

text \<open>A list whose elements are all dicts of hashable scalar values.\<close>

definition flat_entries :: "pyval \<Rightarrow> bool" where
  "flat_entries v =
     (case v of
        PList xs \<Rightarrow> list_all (\<lambda>x. case x of PDict d \<Rightarrow> list_all (\<lambda>kv. py_hashable (snd kv)) d | _ \<Rightarrow> False) xs
      | _ \<Rightarrow> False)"

text \<open>
  The pages that the merger is meant for. \<open>before\<close> is what the aggregate has under the
  page id (an error when it has no such page) and \<open>npage\<close> is the page of the new answer:
  a page that the aggregate has is a dict on both sides once the new one carries the
  property, and where both carry the property the two lists are lists of flat dicts.
\<close>

definition mergeable_page :: "string \<Rightarrow> pyerror + pyval \<Rightarrow> pyval \<Rightarrow> bool" where
  "mergeable_page ty before npage =
     (case before of
        Inl e \<Rightarrow> True
      | Inr opage \<Rightarrow>
         (case npage of
            PDict np \<Rightarrow>
              (case map_of np ty of
                 None \<Rightarrow> True
               | Some nl \<Rightarrow>
                  (case opage of
                     PDict op \<Rightarrow>
                       (case map_of op ty of None \<Rightarrow> True | Some ol \<Rightarrow> flat_entries ol \<and> flat_entries nl)
                   | _ \<Rightarrow> False))
          | _ \<Rightarrow> False))"

text \<open>
  What the page is to be after the merge: the new page as it is when the aggregate had
  none; the old page as it was when the new one lacks the property; the old page with the
  new list when only the new one has the property; and the old page with the union of
  the two lists when both have it.
\<close>

definition page_merged :: "string \<Rightarrow> pyerror + pyval \<Rightarrow> pyval \<Rightarrow> pyerror + pyval \<Rightarrow> bool" where
  "page_merged ty before npage after =
     (case before of
        Inl e \<Rightarrow> after = Inr npage
      | Inr opage \<Rightarrow>
         (case npage of
            PDict np \<Rightarrow>
              (case map_of np ty of
                 None \<Rightarrow> after = Inr opage
               | Some nl \<Rightarrow>
                  (case opage of
                     PDict op \<Rightarrow>
                       (case map_of op ty of
                          None \<Rightarrow> after = Inr (PDict (AList.update ty nl op))
                        | Some ol \<Rightarrow>
                           (case merge_entries ol nl of
                              Inr merged \<Rightarrow> after = Inr (PDict (AList.update ty merged op))
                            | Inl e \<Rightarrow> False))
                   | _ \<Rightarrow> False))
          | _ \<Rightarrow> False))"

section \<open>Properties\<close>

subsection \<open>Request encoding\<close>

text \<open>
  C5. The claim: the encoded body of every parameter mapping decodes back to the original
  pairs, a sequence value being encoded by repeating its key and any other non-string,
  non-numeric value by percent-encoding its UTF-8 bytes. The code does not get that far:
  for a list value, and for a bytes value, \<^verbatim>\<open>urlencode\<close> raises AttributeError when it
  evaluates \<^verbatim>\<open>v.type(str)\<close>, so no body is produced at all.
\<close>

theorem urlencode_nonscalar_raises:
  "urlencode [(''titles'', PList [PStr ''A'', PStr ''B''])]
     = Inl (AttributeError ''list object has no attribute type'')
   \<and> urlencode [(''text'', PBytes ''caf'')]
     = Inl (AttributeError ''bytes object has no attribute type'')
   \<and> urlencode [(''title'', PStr ''A b''), (''pageids'', PList [PInt 1, PInt 2])]
     = Inl (AttributeError ''list object has no attribute type'')"
  by (simp add: urlencode_def)

subsection \<open>The forced result format\<close>

lemma init_data_format: "map_of (init_data wk d write) ''format'' = Some (PStr ''json'')"
  by (simp add: init_data_def Let_def update_conv' split: option.split)

lemma APIRequest_init_data:
  "APIRequest_init menc wk d write mp = Inr r \<Longrightarrow> data r = init_data wk d write"
  by (auto simp: APIRequest_init_def Let_def split: if_splits sum.splits prod.splits)

text \<open>
  C6. Whatever the caller passes as \<^verbatim>\<open>format\<close>, a constructed request has
  \<^verbatim>\<open>format = "json"\<close>; and \<^verbatim>\<open>changeParam("format", v)\<close> raises APIError and leaves the
  request object as it was.
\<close>

theorem format_forced:
  assumes "APIRequest_init menc wk d write mp = Inr r"
  shows "map_of (data r) ''format'' = Some (PStr ''json'')
         \<and> changeParam menc r ''format'' v
             = (Inl (APIError [PStr ''You can not change the result format'']), r)"
  using assms by (simp add: APIRequest_init_data init_data_format changeParam_def)

theorem format_forced_witness:
  "\<exists>r. APIRequest_init (\<lambda>d. ([], []))
          \<lparr> apibase = ''u'', maxlag = 5, maxwaittime = 120, assertval = None, useragent = ''ua'' \<rparr>
          [(''action'', PStr ''query''), (''format'', PStr ''xml'')] False False = Inr r
      \<and> map_of (data r) ''format'' = Some (PStr ''json'')
      \<and> changeParam (\<lambda>d. ([], [])) r ''format'' (PStr ''xml'')
             = (Inl (APIError [PStr ''You can not change the result format'']), r)"
proof -
  obtain r where r: "APIRequest_init (\<lambda>d. ([], []))
          \<lparr> apibase = ''u'', maxlag = 5, maxwaittime = 120, assertval = None, useragent = ''ua'' \<rparr>
          [(''action'', PStr ''query''), (''format'', PStr ''xml'')] False False = Inr r"
    by (simp add: APIRequest_init_def init_data_def urlencode_def Let_def)
  from format_forced [OF r, of "PStr ''xml''"] r show ?thesis by blast
qed

subsection \<open>The transport executor\<close>

lemma example_request_init:
  "APIRequest_init no_multipart example_wiki example_data False False = Inr example_request"
  by code_simp

lemma getRaw_answer:
  "net w (calls w) = Responds resp \<Longrightarrow>
   getRaw w r = (Inr resp, w\<lparr> calls := calls w + 1, opened := opened w @ [request r] \<rparr>,
                 r\<lparr> response := Some (info resp) \<rparr>)"
  by (simp add: getRaw.simps [of w r] opener_open_def)

lemma getRaw_propagate:
  "net w (calls w) = Raises e \<Longrightarrow> sleep r \<ge> maxwaittime (wiki r) \<or> iswrite r \<Longrightarrow>
   getRaw w r = (Inl (Uncaught e), w\<lparr> calls := calls w + 1, opened := opened w @ [request r] \<rparr>, r)"
  by (simp add: getRaw.simps [of w r] opener_open_def)

lemma getRaw_retry:
  "net w (calls w) = Raises e \<Longrightarrow> sleep r < maxwaittime (wiki r) \<Longrightarrow> \<not> iswrite r \<Longrightarrow>
   getRaw w r = getRaw (w\<lparr> calls := calls w + 1, opened := opened w @ [request r],
                           slept := slept w @ [of_int (sleep r) + 1 / 2] \<rparr>)
                       (r\<lparr> sleep := sleep r + 5 \<rparr>)"
  by (simp add: getRaw.simps [of w r] opener_open_def time_sleep_def)

lemma getRaw_persistent:
  "\<not> iswrite r \<Longrightarrow> \<forall>i\<ge>calls w. net w i = Raises (ex i) \<Longrightarrow> retries r = n \<Longrightarrow>
   getRaw w r =
     (Inl (Uncaught (ex (calls w + n))),
      w\<lparr> calls := calls w + n + 1,
         opened := opened w @ replicate (n + 1) (request r),
         slept := slept w @ map (\<lambda>k. of_int (sleep r + 5 * int k) + 1 / 2) [0..<n] \<rparr>,
      r\<lparr> sleep := sleep r + 5 * int n \<rparr>)"
proof (induction n arbitrary: w r)
  case 0
  then have "sleep r \<ge> maxwaittime (wiki r)" by (simp add: retries_def)
  moreover have "net w (calls w) = Raises (ex (calls w))" using 0 by simp
  ultimately show ?case by (simp add: getRaw_propagate)
next
  case (Suc n)
  then have lt: "sleep r < maxwaittime (wiki r)" by (simp add: retries_def)
  have first: "net w (calls w) = Raises (ex (calls w))" using Suc.prems by simp
  let ?w = "w\<lparr> calls := calls w + 1, opened := opened w @ [request r],
                 slept := slept w @ [of_int (sleep r) + 1 / 2] \<rparr>"
  let ?r = "r\<lparr> sleep := sleep r + 5 \<rparr>"
  have n: "retries ?r = n" using Suc.prems(3) lt by (simp add: retries_def)
  have all: "\<forall>i\<ge>calls ?w. net ?w i = Raises (ex i)" using Suc.prems(2) by simp
  have wr: "\<not> iswrite ?r" using Suc.prems(1) by simp
  have shift: "map (\<lambda>k. of_int (sleep r + 5 * int k) + (1 / 2 :: rat)) [0..<Suc n]
      = (of_int (sleep r) + 1 / 2) # map (\<lambda>k. of_int (sleep r + 5 + 5 * int k) + 1 / 2) [0..<n]"
    by (simp add: map_upt_Suc algebra_simps del: upt_Suc)
  show ?case
    unfolding getRaw_retry [OF first lt Suc.prems(1)] Suc.IH [OF wr all n] shift
    by (simp add: replicate_append_same algebra_simps)
qed

lemma fetch_propagate:
  "net w (calls w) = Raises e \<Longrightarrow> sleep r \<ge> maxwaittime (wiki r) \<or> iswrite r \<Longrightarrow>
   fetch (Suc n) w r = Some (Inl (Uncaught e), w\<lparr> calls := calls w + 1, opened := opened w @ [request r] \<rparr>, r)"
  by (simp add: getRaw_propagate)

text \<open>
  C3. For a write request whose first exchange raises, \<^verbatim>\<open>__getRaw\<close> lets the exception
  out at once: one request was opened, nothing was slept, the object is unchanged, and
  \<^verbatim>\<open>query\<close> ends with that exception too.
\<close>

theorem write_request_not_retried:
  assumes "iswrite r" and "net w (calls w) = Raises e" and "map_of (data r) ''action'' = Some a"
  shows "getRaw w r = (Inl (Uncaught e), w\<lparr> calls := calls w + 1, opened := opened w @ [request r] \<rparr>, r)
       \<and> query (Suc n) menc w r querycontinue
           = Some (Inl (Uncaught e), w\<lparr> calls := calls w + 1, opened := opened w @ [request r] \<rparr>, r)"
  using assms by (simp add: getRaw_propagate fetch_propagate query_def fetch_checked_def)

theorem write_request_not_retried_witness:
  "iswrite example_write
   \<and> net (start_world failing_net) (calls (start_world failing_net)) = Raises ''URLError''
   \<and> map_of (data example_write) ''action'' = Some (PStr ''query'')
   \<and> query 3 no_multipart (start_world failing_net) example_write True
       = Some (Inl (Uncaught ''URLError''),
               (start_world failing_net)\<lparr> calls := 1, opened := [request example_write] \<rparr>, example_write)"
proof -
  have h1: "iswrite example_write" by (simp add: example_write_def)
  have h2: "net (start_world failing_net) (calls (start_world failing_net)) = Raises ''URLError''"
    by (simp add: start_world_def failing_net_def)
  have h3: "map_of (data example_write) ''action'' = Some (PStr ''query'')"
    by (simp add: example_write_def example_request_def)
  from write_request_not_retried [OF h1 h2 h3, of 2 no_multipart True] h1 h2 h3
  show ?thesis by (simp add: start_world_def numeral_3_eq_3)
qed

lemma retries_bounds:
  "(\<forall>k<retries r. sleep r + 5 * int k < maxwaittime (wiki r))
   \<and> maxwaittime (wiki r) \<le> sleep r + 5 * int (retries r)"
proof -
  have "maxwaittime (wiki r) \<le> sleep r + 5 * int (retries r)"
    unfolding retries_def by linarith
  moreover have "sleep r + 5 * int k < maxwaittime (wiki r)" if "k < retries r" for k
    using that unfolding retries_def by linarith
  ultimately show ?thesis by blast
qed

lemma init_sleep: "APIRequest_init menc wk d write mp = Inr r \<Longrightarrow> sleep r = 5"
  by (auto simp: APIRequest_init_def Let_def split: if_splits sum.splits prod.splits)

text \<open>
  C7, as amended. For a request that is not a write, on a network that fails at every
  attempt, \<^verbatim>\<open>__getRaw\<close> sleeps the current delay plus half a second after each caught
  failure, raises the delay by 5 each time, stops catching once the delay is no longer
  below \<^verbatim>\<open>maxwaittime\<close>, and so lets the exception out after \<^term>\<open>retries r\<close> retries.
  A new request object starts with the delay 5.
\<close>

theorem transport_backoff:
  assumes "\<not> iswrite r" and "\<forall>i\<ge>calls w. net w i = Raises (ex i)"
  shows "getRaw w r =
           (Inl (Uncaught (ex (calls w + retries r))),
            w\<lparr> calls := calls w + retries r + 1,
               opened := opened w @ replicate (retries r + 1) (request r),
               slept := slept w @ map (\<lambda>k. of_int (sleep r + 5 * int k) + 1 / 2) [0..<retries r] \<rparr>,
            r\<lparr> sleep := sleep r + 5 * int (retries r) \<rparr>)
         \<and> (\<forall>k<retries r. sleep r + 5 * int k < maxwaittime (wiki r))
         \<and> maxwaittime (wiki r) \<le> sleep r + 5 * int (retries r)
         \<and> (\<forall>menc wk d mp r0. APIRequest_init menc wk d False mp = Inr r0 \<longrightarrow> sleep r0 = 5)"
  using getRaw_persistent [OF assms refl] retries_bounds [of r] init_sleep by blast

lemma example_retries: "retries example_request = 2"
  by (simp add: retries_def example_request_def example_wiki_def)

theorem transport_backoff_witness:
  "\<not> iswrite example_request
   \<and> (\<forall>i. net (start_world failing_net) i = Raises ''URLError'')
   \<and> getRaw (start_world failing_net) example_request =
        (Inl (Uncaught ''URLError''),
         (start_world failing_net)\<lparr> calls := 3,
              opened := [request example_request, request example_request, request example_request],
              slept := [11 / 2, 21 / 2] \<rparr>,
         example_request\<lparr> sleep := 15 \<rparr>)"
proof -
  have h1: "\<not> iswrite example_request" by (simp add: example_request_def)
  have h2: "\<forall>i\<ge>calls (start_world failing_net). net (start_world failing_net) i = Raises ((\<lambda>i. ''URLError'') i)"
    by (simp add: start_world_def failing_net_def)
  have s: "sleep example_request = 5" by (simp add: example_request_def)
  have u: "[0..<2] = [0, Suc 0]" by (simp add: upt_rec)
  have h0: "\<forall>i. net (start_world failing_net) i = Raises ''URLError''"
    by (simp add: start_world_def failing_net_def)
  from transport_backoff [OF h1 h2] h1 h0 show ?thesis
    by (simp add: example_retries s u start_world_def numeral_2_eq_2 numeral_3_eq_3)
qed

text \<open>
  C7 as stated says that the loop sleeps the current delay. With the delay at 5 and
  \<^verbatim>\<open>maxwaittime\<close> 12 the two sleeps are 5.5 and 10.5 seconds, not 5 and 10.
\<close>

theorem transport_sleep_counterexample:
  "slept (fst (snd (getRaw (start_world failing_net) example_request))) = [11 / 2, 21 / 2]
   \<and> slept (fst (snd (getRaw (start_world failing_net) example_request))) \<noteq> [5, 10]"
proof -
  have h1: "\<not> iswrite example_request" by (simp add: example_request_def)
  have h2: "\<forall>i\<ge>calls (start_world failing_net). net (start_world failing_net) i = Raises ((\<lambda>i. ''URLError'') i)"
    by (simp add: start_world_def failing_net_def)
  have s: "sleep example_request = 5" by (simp add: example_request_def)
  have u: "[0..<2] = [0, Suc 0]" by (simp add: upt_rec)
  from getRaw_persistent [OF h1 h2 example_retries] show ?thesis
    by (simp add: s u start_world_def)
qed

subsection \<open>The response decoder and server lag\<close>







lemma parse_plain:
  "parsed resp = Some page \<Longrightarrow> py_contains ''error'' page = Inr False \<Longrightarrow>
   parseJSON w r resp = (Inr page, w)"
  by (simp add: parseJSON_def parse_try_def)


lemma fetch_page:
  assumes "net w (calls w) = Responds resp" "parsed resp = Some page"
    "py_contains ''error'' page = Inr False" "py_truthy page \<or> is_APIListResult page"
  shows "fetch (Suc n) w r = Some (Inr page, w\<lparr> calls := calls w + 1, opened := opened w @ [request r] \<rparr>,
                                    r\<lparr> response := Some (info resp) \<rparr>)"
  using assms(4) by (auto simp add: getRaw_answer [OF assms(1)] parse_plain [OF assms(2,3)])


lemma raise_on_error_none: "py_contains ''error'' page = Inr False \<Longrightarrow> raise_on_error r page = Inr ()"
  by (simp add: raise_on_error_def)




text \<open>
  A maxlag message that names no seconds makes \<^verbatim>\<open>.group\<close> fail on \<^verbatim>\<open>None\<close>; the bare
  \<^verbatim>\<open>except\<close> then raises in its turn, and the query ends after its one request.
\<close>

lemma vague_lag_run:
  "map_option (\<lambda>(x, w, r). (x, calls w, slept w))
       (query 2 no_multipart (start_world vague_lag_net) example_request True)
     = Some (Inl (UnsupportedOperation ''seek''), 1, [])"
  by code_simp



subsection \<open>An empty list as a result\<close>

text \<open>
  C10. When the body decodes to the empty list, \<^verbatim>\<open>query\<close> returns it after that one
  exchange, and \<^verbatim>\<open>queryGen\<close> yields it after that one exchange and ends at the next call
  of \<^verbatim>\<open>next\<close> without another request; neither raises.
\<close>

theorem empty_list_accepted:
  assumes "net w (calls w) = Responds resp" and "parsed resp = Some (PList [])"
    and "map_of (data r) ''action'' = Some a"
    and "changeParam menc r ''continue'' (PStr []) = (Inr (), r1)"
  shows "query (Suc n) menc w r querycontinue
           = Some (Inr (PList []), w\<lparr> calls := calls w + 1, opened := opened w @ [request r] \<rparr>,
                   r\<lparr> response := Some (info resp) \<rparr>)
       \<and> queryGen_next (Suc n) menc w r GenStart
           = Some (Inr (Some (PList [])), w\<lparr> calls := calls w + 1, opened := opened w @ [request r1] \<rparr>,
                   r1\<lparr> response := Some (info resp) \<rparr>, GenSuspended (request r) (PList []))
       \<and> queryGen_next k menc w' r' (GenSuspended (request r) (PList [])) = Some (Inr None, w', r', GenDone)"
proof -
  have c: "py_contains ''error'' (PList []) = Inr False" by simp
  have f: "fetch (Suc n) w x = Some (Inr (PList []), w\<lparr> calls := calls w + 1, opened := opened w @ [request x] \<rparr>,
                  x\<lparr> response := Some (info resp) \<rparr>)" for x
    by (rule fetch_page [OF assms(1,2) c]) simp
  have q: "query (Suc n) menc w r querycontinue
           = Some (Inr (PList []), w\<lparr> calls := calls w + 1, opened := opened w @ [request r] \<rparr>,
                   r\<lparr> response := Some (info resp) \<rparr>)"
    by (simp add: query_def fetch_checked_def f raise_on_error_none assms(3) del: fetch.simps)
  have g: "queryGen_next (Suc n) menc w r GenStart
           = Some (Inr (Some (PList [])), w\<lparr> calls := calls w + 1, opened := opened w @ [request r1] \<rparr>,
                   r1\<lparr> response := Some (info resp) \<rparr>, GenSuspended (request r) (PList []))"
    by (simp add: assms(4) gen_fetch_def fetch_checked_def f raise_on_error_none Let_def del: fetch.simps)
  have e: "queryGen_next k menc w' r' (GenSuspended (request r) (PList [])) = Some (Inr None, w', r', GenDone)"
    by simp
  from q g e show ?thesis by blast
qed

lemma example_changeParam_continue:
  "changeParam no_multipart example_request ''continue'' (PStr []) = (Inr (), example_request_continue)"
  by code_simp

theorem empty_list_accepted_witness:
  "net (start_world empty_list_net) (calls (start_world empty_list_net)) = Responds (json_response (PList []))
   \<and> parsed (json_response (PList [])) = Some (PList [])
   \<and> map_of (data example_request) ''action'' = Some (PStr ''query'')
   \<and> changeParam no_multipart example_request ''continue'' (PStr []) = (Inr (), example_request_continue)
   \<and> query (Suc 0) no_multipart (start_world empty_list_net) example_request True
        = Some (Inr (PList []),
                (start_world empty_list_net)\<lparr> calls := calls (start_world empty_list_net) + 1,
                     opened := opened (start_world empty_list_net) @ [request example_request] \<rparr>,
                example_request\<lparr> response := Some (info (json_response (PList []))) \<rparr>)
   \<and> queryGen_next (Suc 0) no_multipart (start_world empty_list_net) example_request GenStart
        = Some (Inr (Some (PList [])),
                (start_world empty_list_net)\<lparr> calls := calls (start_world empty_list_net) + 1,
                     opened := opened (start_world empty_list_net) @ [request example_request_continue] \<rparr>,
                example_request_continue\<lparr> response := Some (info (json_response (PList []))) \<rparr>,
                GenSuspended (request example_request) (PList []))
   \<and> queryGen_next (Suc 0) no_multipart (start_world empty_list_net) example_request_continue
          (GenSuspended (request example_request) (PList []))
        = Some (Inr None, start_world empty_list_net, example_request_continue, GenDone)"
proof -
  have h1: "net (start_world empty_list_net) (calls (start_world empty_list_net)) = Responds (json_response (PList []))"
    by (simp add: start_world_def empty_list_net_def)
  have h2: "parsed (json_response (PList [])) = Some (PList [])" by (simp add: json_response_def)
  have h3: "map_of (data example_request) ''action'' = Some (PStr ''query'')"
    by (simp add: example_request_def)
  note h4 = example_changeParam_continue
  from empty_list_accepted [OF h1 h2 h3 h4, of 0 True "Suc 0" "start_world empty_list_net" example_request_continue]
    h1 h2 h3 h4
  show ?thesis by blast
qed

subsection \<open>The streaming protocol\<close>

text \<open>
  C1. The claim: after a page with a \<^verbatim>\<open>continue\<close> mapping the next request is the saved
  original request with the parameters of that mapping written over it, so that nothing
  of an earlier mapping is left. In the code \<^verbatim>\<open>self.request = copy.deepcopy(reqcopy)\<close>
  restores the request object only; \<^verbatim>\<open>changeParam\<close> then builds a new request from
  \<^verbatim>\<open>self.data\<close>, which was never restored. On three pages, of which the first continues
  with \<^verbatim>\<open>plcontinue\<close> and the second with \<^verbatim>\<open>gapcontinue\<close>, the third request still
  carries the \<^verbatim>\<open>plcontinue\<close> of the first page. The four calls of \<^verbatim>\<open>next\<close> give three
  pages and the end of the sequence, with three requests opened.
\<close>

theorem queryGen_keeps_stale_parameter:
  "map_option (\<lambda>(xs, w, r, g). (length xs, map body (opened w), g))
       (take_pages 4 1 no_multipart (start_world three_pages_net) example_request GenStart)
     = Some (4,
             [''action=query&generator=allpages&prop=links&format=json&maxlag=5&continue='',
              ''action=query&generator=allpages&prop=links&format=json&maxlag=5&continue=%7C%7C&plcontinue=1%7C0%7CA'',
              ''action=query&generator=allpages&prop=links&format=json&maxlag=5&continue=gapcontinue%7C%7C&plcontinue=1%7C0%7CA&gapcontinue=B''],
             GenDone)"
  by code_simp

subsection \<open>The legacy continuation engine: choosing the key\<close>

text \<open>
  C2. The claim: one pair of keys is chosen for every \<^verbatim>\<open>query-continue\<close> mapping; with
  one outer key it is that key and its inner key. In the code every mapping with one
  outer key raises TypeError at \<^verbatim>\<open>possiblecontinues[0]\<close>, and so does a mapping with
  several outer keys none of whose inner keys is shorter than 11 characters; the legacy
  query of the specification's own example ends with that TypeError after its first
  request.
\<close>

theorem select_continue_subscript_raises:
  "select_continue (PDict [(key1, inner)]) = Inl (TypeError ''dict_keys object is not subscriptable'')
   \<and> select_continue (PDict [(''images'', PDict [(''imcontinue'', PStr ''foo'')])])
       = Inl (TypeError ''dict_keys object is not subscriptable'')
   \<and> select_continue (PDict [(''images'', PDict [(''imcontinuelong'', PStr ''foo'')]),
                               (''links'', PDict [(''plcontinuelong'', PInt 7)])])
       = Inl (TypeError ''dict_keys object is not subscriptable'')
   \<and> map_option (\<lambda>(x, w, r). (x, calls w))
         (query 2 no_multipart (start_world legacy_net) example_request True)
       = Some (Inl (TypeError ''dict_keys object is not subscriptable''), 1)"
proof -
  have a: "select_continue (PDict [(k, v)]) = Inl (TypeError ''dict_keys object is not subscriptable'')" for k v
    by (simp add: select_continue_def ebind_def keys_subscript_def)
  have b: "select_continue (PDict [(''images'', PDict [(''imcontinuelong'', PStr ''foo'')]),
                               (''links'', PDict [(''plcontinuelong'', PInt 7)])])
       = Inl (TypeError ''dict_keys object is not subscriptable'')"
    by (simp add: select_continue_def ebind_def keys_subscript_def first_short_def)
  have c: "map_option (\<lambda>(x, w, r). (x, calls w))
         (query 2 no_multipart (start_world legacy_net) example_request True)
       = Some (Inl (TypeError ''dict_keys object is not subscriptable''), 1)"
    by code_simp
  from a b c show ?thesis by blast
qed

text \<open>
  What remains of the policy: with two outer keys of which only the second has an inner
  key shorter than 11 characters, that pair is chosen; and whenever a pair is chosen, its
  inner key is shorter than 11 characters.
\<close>

lemma select_continue_short_inner:
  assumes "a \<noteq> b" "b \<noteq> []" "first_short (map fst ia) = None" "first_short (map fst ib) = Some k"
  shows "select_continue (PDict [(a, PDict ia), (b, PDict ib)]) = Inr (b, k)"
  using assms by (simp add: select_continue_def ebind_def)

lemma first_short_length: "first_short ks = Some k \<Longrightarrow> length k < 11"
  by (auto simp: first_short_def find_Some_iff)

lemma scan_continues_short:
  "scan_continues qc ks [] key2 = Inr (Some (a, b)) \<Longrightarrow> length b < 11"
proof (induction ks arbitrary: key2)
  case Nil
  then show ?case by simp
next
  case (Cons posskey rest)
  from Cons.prems obtain inner keylist where
    i: "py_getitem qc posskey = Inr inner" and k: "py_keys inner = Inr keylist"
    by (auto simp: ebind_def split: sum.splits)
  show ?case
  proof (cases "first_short keylist")
    case None
    with Cons.prems i k have "scan_continues qc rest [] key2 = Inr (Some (a, b))"
      by (simp add: ebind_def)
    then show ?thesis by (rule Cons.IH)
  next
    case (Some key)
    show ?thesis
    proof (cases "posskey = []")
      case True
      with Cons.prems i k Some have "scan_continues qc rest [] key = Inr (Some (a, b))"
        by (simp add: ebind_def)
      then show ?thesis by (rule Cons.IH)
    next
      case False
      with Cons.prems i k Some have "b = key" by (simp add: ebind_def)
      with first_short_length [OF Some] show ?thesis by simp
    qed
  qed
qed

lemma select_continue_result_short:
  assumes "select_continue qc = Inr (key1, key2)"
  shows "length key2 < 11"
proof -
  from assms obtain ks where ks: "py_keys qc = Inr ks"
    by (auto simp: select_continue_def ebind_def split: sum.splits)
  have ne: "length ks \<noteq> 1"
    using assms ks by (auto simp: select_continue_def ebind_def keys_subscript_def)
  with assms ks obtain found where f: "scan_continues qc ks [] [] = Inr found"
    by (auto simp: select_continue_def ebind_def split: sum.splits)
  from assms ks ne f have "found = Some (key1, key2)"
    by (cases found) (auto simp: select_continue_def ebind_def keys_subscript_def)
  with f show ?thesis using scan_continues_short by blast
qed

subsection \<open>The legacy continuation engine: tracking the key\<close>

lemma map_of_filter_keys:
  "map_of (filter (\<lambda>kv. fst kv \<notin> C) d) k = (if k \<in> C then None else map_of d k)"
  by (induction d) auto

lemma track_continue_invariant:
  "\<forall>k\<in>continues r. \<not> is_generator_key k \<Longrightarrow>
   \<forall>k\<in>continues (track_continue r key2 cont). \<not> is_generator_key k"
  by (auto simp: track_continue_def Let_def)

text \<open>
  Lines 252 to 258 on their own, for a key \<^verbatim>\<open>key2\<close> handed to them with its value, when
  no tracked key is a generator key: a key of at least 11 characters that starts with
  \<^verbatim>\<open>g\<close> becomes \<^verbatim>\<open>_generator\<close>, every tracked key is removed from the parameters,
  \<^verbatim>\<open>key2\<close> is set and the other parameters stay; any other key joins the tracked keys, is
  set in the parameters, and every other parameter stays as it was.
\<close>

lemma track_continue_effect:
  assumes "\<forall>k\<in>continues r. \<not> is_generator_key k"
  shows "(is_generator_key key2 \<longrightarrow>
            generator (track_continue r key2 cont) = key2
          \<and> (\<forall>k\<in>continues r. map_of (data (track_continue r key2 cont)) k = None)
          \<and> map_of (data (track_continue r key2 cont)) key2 = Some cont
          \<and> (\<forall>k. k \<notin> continues r \<and> k \<noteq> key2
                \<longrightarrow> map_of (data (track_continue r key2 cont)) k = map_of (data r) k)
          \<and> continues (track_continue r key2 cont) = continues r)
       \<and> (\<not> is_generator_key key2 \<longrightarrow>
            continues (track_continue r key2 cont) = insert key2 (continues r)
          \<and> generator (track_continue r key2 cont) = generator r
          \<and> map_of (data (track_continue r key2 cont)) key2 = Some cont
          \<and> (\<forall>k. k \<noteq> key2 \<longrightarrow> map_of (data (track_continue r key2 cont)) k = map_of (data r) k))"
proof (cases "is_generator_key key2")
  case True
  with assms have notin: "key2 \<notin> continues r" by blast
  have d: "data (track_continue r key2 cont)
             = AList.update key2 cont (filter (\<lambda>kv. fst kv \<notin> continues r) (data r))"
    using True by (simp add: track_continue_def Let_def)
  have g: "generator (track_continue r key2 cont) = key2"
    and c: "continues (track_continue r key2 cont) = continues r"
    using True by (simp_all add: track_continue_def Let_def)
  have m: "map_of (data (track_continue r key2 cont)) k
             = (if k = key2 then Some cont else if k \<in> continues r then None else map_of (data r) k)" for k
    unfolding d by (simp add: update_conv' map_of_filter_keys)
  from True g c notin show ?thesis by (auto simp: m)
next
  case False
  have d: "data (track_continue r key2 cont) = AList.update key2 cont (data r)"
    using False by (simp add: track_continue_def Let_def)
  have g: "generator (track_continue r key2 cont) = generator r"
    and c: "continues (track_continue r key2 cont) = insert key2 (continues r)"
    using False by (simp_all add: track_continue_def Let_def)
  from False g c show ?thesis by (simp add: d update_conv')
qed

text \<open>
  No pass of the loop body that gets as far as line 252 has a generator key in hand: the
  key it tracks is never one, so \<^verbatim>\<open>_generator\<close> stays as it was.
\<close>

lemma advance_never_generator:
  assumes "advance r res = Inr (keys, r')"
  shows "\<exists>key2 cont. \<not> is_generator_key key2 \<and> r' = track_continue r key2 cont"
proof -
  from assms obtain qc where qc: "py_getitem res ''query-continue'' = Inr qc"
    by (auto simp: advance_def ebind_def split: sum.splits)
  from assms qc obtain ks where ks: "py_keys qc = Inr ks"
    by (auto simp: advance_def ebind_def split: sum.splits)
  from assms qc ks obtain key1 key2 where s: "select_continue qc = Inr (key1, key2)"
    by (auto simp: advance_def ebind_def split: sum.splits)
  from assms qc ks s obtain cont where c: "continue_value qc key1 key2 = Inr cont"
    by (auto simp: advance_def ebind_def split: sum.splits)
  from assms qc ks s c have r': "r' = track_continue r key2 cont"
    by (simp add: advance_def ebind_def)
  from select_continue_result_short [OF s] have "\<not> is_generator_key key2"
    by (simp add: is_generator_key_def)
  with r' show ?thesis by blast
qed

text \<open>
  C8. The loop does not get to line 252 with a generator key. On a first answer whose
  \<^verbatim>\<open>query-continue\<close> is \<^verbatim>\<open>{"allpages": {"gapcontinue": "B"}}\<close>, where the key
  \<^verbatim>\<open>gapcontinue\<close> has 11 characters and starts with \<^verbatim>\<open>g\<close>, the loop body raises
  \<^verbatim>\<open>TypeError\<close> at \<^verbatim>\<open>possiblecontinues[0]\<close> (line 224), also on a request object that
  already tracks \<^verbatim>\<open>plcontinue\<close>; the query ends with that error after its one request,
  so no key becomes the generator key and there is no next request from which the
  tracked parameters could be removed.
\<close>

theorem generator_key_never_reached:
  "is_generator_key ''gapcontinue''
   \<and> advance example_tracked generator_page
       = Inl (TypeError ''dict_keys object is not subscriptable'')
   \<and> map_option (\<lambda>(x, w, r). (x, calls w))
         (query 2 no_multipart (start_world generator_net) example_request True)
       = Some (Inl (TypeError ''dict_keys object is not subscriptable''), 1)"
proof -
  have a: "is_generator_key ''gapcontinue''" by (simp add: is_generator_key_def)
  have b: "advance example_tracked generator_page
       = Inl (TypeError ''dict_keys object is not subscriptable'')"
    by (simp add: advance_def generator_page_def ebind_def select_continue_def keys_subscript_def)
  have c: "map_option (\<lambda>(x, w, r). (x, calls w))
         (query 2 no_multipart (start_world generator_net) example_request True)
       = Some (Inl (TypeError ''dict_keys object is not subscriptable''), 1)"
    by code_simp
  from a b c show ?thesis by blast
qed

subsection \<open>The result merger\<close>

lemma scalar_eq_refl: "scalar_eq a a"
  by (simp add: scalar_eq_def split: option.split)

lemma scalar_eq_sym: "scalar_eq a b \<Longrightarrow> scalar_eq b a"
  by (auto simp: scalar_eq_def split: option.splits)

lemma scalar_eq_trans: "scalar_eq a b \<Longrightarrow> scalar_eq b c \<Longrightarrow> scalar_eq a c"
  by (auto simp: scalar_eq_def split: option.splits)

lemma items_eq_refl: "items_eq a a"
  unfolding items_eq_def by (rule list_all2_refl) (simp add: scalar_eq_refl)

lemma items_eq_sym: "items_eq a b \<Longrightarrow> items_eq b a"
  unfolding items_eq_def
  by (induction rule: list_all2_induct) (auto intro: scalar_eq_sym)

lemma items_eq_trans: "items_eq a b \<Longrightarrow> items_eq b c \<Longrightarrow> items_eq a c"
  unfolding items_eq_def
proof (induction a arbitrary: b c)
  case Nil
  then show ?case by simp
next
  case (Cons x xs)
  from Cons.prems(1) obtain y ys where b: "b = y # ys"
    and xy: "fst x = fst y" "scalar_eq (snd x) (snd y)"
    and r1: "list_all2 (\<lambda>x y. fst x = fst y \<and> scalar_eq (snd x) (snd y)) xs ys"
    by (auto simp: list_all2_Cons1)
  from Cons.prems(2) b obtain z zs where c: "c = z # zs"
    and yz: "fst y = fst z" "scalar_eq (snd y) (snd z)"
    and r2: "list_all2 (\<lambda>x y. fst x = fst y \<and> scalar_eq (snd x) (snd y)) ys zs"
    by (auto simp: list_all2_Cons1)
  have f: "fst x = fst z" using xy(1) yz(1) by simp
  have v: "scalar_eq (snd x) (snd z)" using xy(2) yz(2) by (rule scalar_eq_trans)
  from f v Cons.IH [OF r1 r2] c show ?case by simp
qed

lemma distinct_items_Nil: "distinct_items []"
  by (simp add: distinct_items_def)

lemma distinct_items_snoc:
  assumes "distinct_items S" "\<forall>y\<in>set S. \<not> items_eq t y"
  shows "distinct_items (S @ [t])"
  unfolding distinct_items_def
proof (intro allI impI)
  fix i j assume i: "i < length (S @ [t])" and j: "j < length (S @ [t])" and ne: "i \<noteq> j"
  show "\<not> items_eq ((S @ [t]) ! i) ((S @ [t]) ! j)"
  proof (cases "i < length S")
    case True
    show ?thesis
    proof (cases "j < length S")
      case jl: True
      with True ne assms(1) show ?thesis by (simp add: distinct_items_def nth_append)
    next
      case False
      with j have "j = length S" by simp
      with True assms(2) show ?thesis
        by (auto simp: nth_append dest: items_eq_sym)
    qed
  next
    case False
    with i have il: "i = length S" by simp
    with ne j have "j < length S" by simp
    with il assms(2) show ?thesis by (auto simp: nth_append)
  qed
qed

lemma set_add_distinct: "distinct_items S \<Longrightarrow> distinct_items (set_add t S)"
  by (auto simp: set_add_def list_ex_iff intro: distinct_items_snoc)

lemma set_add_covers: "\<exists>e\<in>set (set_add t S). items_eq t e"
  by (auto simp: set_add_def list_ex_iff items_eq_refl)

lemma set_add_keeps: "set S \<subseteq> set (set_add t S)"
  by (auto simp: set_add_def)

lemma set_add_from: "set (set_add t S) \<subseteq> insert t (set S)"
  by (auto simp: set_add_def)

lemma fold_add_distinct: "distinct_items S \<Longrightarrow> distinct_items (foldl (\<lambda>S t. set_add t S) S ts)"
  by (induction ts arbitrary: S) (simp_all add: set_add_distinct)

lemma fold_add_keeps: "set S \<subseteq> set (foldl (\<lambda>S t. set_add t S) S ts)"
proof (induction ts arbitrary: S)
  case Nil then show ?case by simp
next
  case (Cons t ts)
  have "set S \<subseteq> set (set_add t S)" by (rule set_add_keeps)
  also have "\<dots> \<subseteq> set (foldl (\<lambda>S t. set_add t S) (set_add t S) ts)" by (rule Cons.IH)
  finally show ?case by simp
qed

lemma fold_add_from: "set (foldl (\<lambda>S t. set_add t S) S ts) \<subseteq> set S \<union> set ts"
proof (induction ts arbitrary: S)
  case Nil then show ?case by simp
next
  case (Cons t ts)
  have "set (foldl (\<lambda>S t. set_add t S) (set_add t S) ts) \<subseteq> set (set_add t S) \<union> set ts" by (rule Cons.IH)
  also have "\<dots> \<subseteq> insert t (set S) \<union> set ts" using set_add_from [of t S] by blast
  finally show ?case by auto
qed

lemma fold_add_covers:
  "t \<in> set ts \<Longrightarrow> \<exists>e\<in>set (foldl (\<lambda>S t. set_add t S) S ts). items_eq t e"
proof (induction ts arbitrary: S)
  case Nil then show ?case by simp
next
  case (Cons u ts)
  show ?case
  proof (cases "t = u")
    case True
    obtain e where e: "e \<in> set (set_add u S)" "items_eq u e" using set_add_covers by blast
    with fold_add_keeps [of "set_add u S" ts] have "e \<in> set (foldl (\<lambda>S t. set_add t S) (set_add u S) ts)" by blast
    with e True show ?thesis by auto
  next
    case False
    with Cons.prems have "t \<in> set ts" by simp
    from Cons.IH [OF this, of "set_add u S"] show ?thesis by simp
  qed
qed

text \<open>The set comprehension over a list of flat dicts adds them one by one.\<close>

lemma item_tuples_flat:
  "\<forall>d\<in>set ds. list_all (\<lambda>kv. py_hashable (snd kv)) d \<Longrightarrow>
   item_tuples (map PDict ds) S = Inr (foldl (\<lambda>S t. set_add t S) S ds)"
  by (induction ds arbitrary: S) simp_all

lemma merge_entries_flat:
  assumes "\<forall>d\<in>set as. list_all (\<lambda>kv. py_hashable (snd kv)) d"
      and "\<forall>d\<in>set bs. list_all (\<lambda>kv. py_hashable (snd kv)) d"
  shows "merge_entries (PList (map PDict as)) (PList (map PDict bs))
           = Inr (PList (map PDict (merged_items as bs)))"
  by (simp add: merge_entries_def ebind_def item_tuples_flat [OF assms(1)] item_tuples_flat [OF assms(2)]
        merged_items_def)

lemma merged_items_distinct: "distinct_items (merged_items as bs)"
  unfolding merged_items_def
  by (intro fold_add_distinct distinct_items_Nil)

lemma merged_items_from: "set (merged_items as bs) \<subseteq> set as \<union> set bs"
proof -
  have "set (merged_items as bs)
          \<subseteq> set (foldl (\<lambda>S t. set_add t S) [] as) \<union> set (foldl (\<lambda>S t. set_add t S) [] bs)"
    unfolding merged_items_def by (rule fold_add_from)
  moreover have "set (foldl (\<lambda>S t. set_add t S) [] as) \<subseteq> set as"
    using fold_add_from [of "[]" as] by simp
  moreover have "set (foldl (\<lambda>S t. set_add t S) [] bs) \<subseteq> set bs"
    using fold_add_from [of "[]" bs] by simp
  ultimately show ?thesis by blast
qed

lemma merged_items_covers:
  assumes "e \<in> set as \<union> set bs"
  shows "\<exists>x\<in>set (merged_items as bs). items_eq e x"
proof (cases "e \<in> set as")
  case True
  then obtain x where x: "x \<in> set (foldl (\<lambda>S t. set_add t S) [] as)" "items_eq e x"
    using fold_add_covers by blast
  have "set (foldl (\<lambda>S t. set_add t S) [] as) \<subseteq> set (merged_items as bs)"
    unfolding merged_items_def by (rule fold_add_keeps)
  with x show ?thesis by blast
next
  case False
  with assms have "e \<in> set bs" by simp
  then obtain n where n: "n \<in> set (foldl (\<lambda>S t. set_add t S) [] bs)" "items_eq e n"
    using fold_add_covers by blast
  from n(1) obtain x where x: "x \<in> set (merged_items as bs)" "items_eq n x"
    unfolding merged_items_def using fold_add_covers by blast
  from n(2) x(2) have "items_eq e x" by (rule items_eq_trans)
  with x(1) show ?thesis by blast
qed

lemma set_query_page_dict:
  assumes "map_of od ''query'' = Some (PDict oq)" "map_of oq ''pages'' = Some (PDict ops)"
  shows "set_query_page (PDict od) key page
           = Inr (PDict (AList.update ''query''
                   (PDict (AList.update ''pages'' (PDict (AList.update key page ops)) oq)) od))"
  using assms by (simp add: set_query_page_def ebind_def)

lemma page_of_dict:
  assumes "map_of od ''query'' = Some (PDict oq)" "map_of oq ''pages'' = Some (PDict ops)"
  shows "page_of (PDict od) k = py_getitem (PDict ops) k"
  using assms by (simp add: page_of_def ebind_def)

lemma page_of_updated:
  "page_of (PDict (AList.update ''query''
              (PDict (AList.update ''pages'' (PDict (AList.update key page ops)) oq)) od)) k
     = (if k = key then Inr page else py_getitem (PDict ops) k)"
  by (simp add: page_of_def ebind_def update_conv')

lemma in_keys_iff: "k \<in> fst ` set d \<longleftrightarrow> map_of d k \<noteq> None"
  by (simp add: map_of_eq_None_iff)

lemma combine_page_new:
  assumes "map_of od ''query'' = Some (PDict oq)" "map_of oq ''pages'' = Some (PDict ops)"
    "map_of nd ''query'' = Some (PDict nq)" "map_of nq ''pages'' = Some (PDict nps)"
    "map_of nps key = Some npage" "key \<notin> fst ` set ops"
  shows "combine_page ty (PDict od) (PDict nd) key
           = Inr (PDict (AList.update ''query''
                   (PDict (AList.update ''pages'' (PDict (AList.update key npage ops)) oq)) od))"
  using assms by (simp add: combine_page_def ebind_def set_query_page_dict)

lemma combine_page_untouched:
  assumes "map_of od ''query'' = Some (PDict oq)" "map_of oq ''pages'' = Some (PDict ops)"
    "map_of nd ''query'' = Some (PDict nq)" "map_of nq ''pages'' = Some (PDict nps)"
    "map_of nps key = Some (PDict np)" "key \<in> fst ` set ops" "ty \<notin> fst ` set np"
  shows "combine_page ty (PDict od) (PDict nd) key = Inr (PDict od)"
  using assms by (simp add: combine_page_def ebind_def)

lemma combine_page_added:
  assumes "map_of od ''query'' = Some (PDict oq)" "map_of oq ''pages'' = Some (PDict ops)"
    "map_of nd ''query'' = Some (PDict nq)" "map_of nq ''pages'' = Some (PDict nps)"
    "map_of nps key = Some (PDict np)" "map_of ops key = Some (PDict op)"
    "map_of np ty = Some nl" "ty \<notin> fst ` set op"
  shows "combine_page ty (PDict od) (PDict nd) key
           = Inr (PDict (AList.update ''query''
                   (PDict (AList.update ''pages''
                      (PDict (AList.update key (PDict (AList.update ty nl op)) ops)) oq)) od))"
proof -
  have k: "key \<in> fst ` set ops" using assms(6) by (simp add: in_keys_iff)
  have t: "ty \<in> fst ` set np" using assms(7) by (simp add: in_keys_iff)
  show ?thesis
    using assms k t by (simp add: combine_page_def ebind_def set_query_page_dict)
qed

lemma combine_page_merged:
  assumes "map_of od ''query'' = Some (PDict oq)" "map_of oq ''pages'' = Some (PDict ops)"
    "map_of nd ''query'' = Some (PDict nq)" "map_of nq ''pages'' = Some (PDict nps)"
    "map_of nps key = Some (PDict np)" "map_of ops key = Some (PDict op)"
    "map_of np ty = Some (PList (map PDict bs))" "map_of op ty = Some (PList (map PDict as))"
    "\<forall>d\<in>set as. list_all (\<lambda>kv. py_hashable (snd kv)) d"
    "\<forall>d\<in>set bs. list_all (\<lambda>kv. py_hashable (snd kv)) d"
  shows "combine_page ty (PDict od) (PDict nd) key
           = Inr (PDict (AList.update ''query''
                   (PDict (AList.update ''pages''
                      (PDict (AList.update key
                         (PDict (AList.update ty (PList (map PDict (merged_items as bs))) op)) ops)) oq)) od))"
proof -
  have k: "key \<in> fst ` set ops" using assms(6) by (simp add: in_keys_iff)
  have t: "ty \<in> fst ` set np" using assms(7) by (simp add: in_keys_iff)
  have u: "ty \<in> fst ` set op" using assms(8) by (simp add: in_keys_iff)
  show ?thesis
    using assms(1-8) k t u
    by (simp add: combine_page_def ebind_def set_query_page_dict merge_entries_flat [OF assms(9,10)])
qed

lemma flat_entries_dest:
  assumes "flat_entries v"
  shows "\<exists>ds. v = PList (map PDict ds) \<and> (\<forall>d\<in>set ds. list_all (\<lambda>kv. py_hashable (snd kv)) d)"
proof -
  from assms obtain xs where v: "v = PList xs"
    and a: "list_all (\<lambda>x. case x of PDict d \<Rightarrow> list_all (\<lambda>kv. py_hashable (snd kv)) d | _ \<Rightarrow> False) xs"
    by (cases v) (simp_all add: flat_entries_def)
  from a have "\<exists>ds. xs = map PDict ds \<and> (\<forall>d\<in>set ds. list_all (\<lambda>kv. py_hashable (snd kv)) d)"
  proof (induction xs)
    case Nil
    then show ?case by simp
  next
    case (Cons x xs)
    from Cons.prems obtain d where x: "x = PDict d" and h: "list_all (\<lambda>kv. py_hashable (snd kv)) d"
      by (cases x) simp_all
    from Cons.prems Cons.IH obtain ds where ds: "xs = map PDict ds"
      "\<forall>d\<in>set ds. list_all (\<lambda>kv. py_hashable (snd kv)) d" by auto
    have e: "x # xs = map PDict (d # ds)" using x ds(1) by simp
    have f: "\<forall>e\<in>set (d # ds). list_all (\<lambda>kv. py_hashable (snd kv)) e" using h ds(2) by simp
    show ?case by (rule exI [of _ "d # ds"]) (rule conjI [OF e f])
  qed
  then obtain ds where "xs = map PDict ds" "\<forall>d\<in>set ds. list_all (\<lambda>kv. py_hashable (snd kv)) d"
    by (elim exE conjE)
  with v show ?thesis by (intro exI [of _ ds]) simp
qed

lemma update_same: "map_of al k = Some v \<Longrightarrow> AList.update k v al = al"
  by (induction al) (auto split: if_splits)

lemma getitem_cong: "map_of a k = map_of b k \<Longrightarrow> py_getitem (PDict a) k = py_getitem (PDict b) k"
  by simp

lemma written_page:
  "\<exists>od' oq' ops'.
      PDict (AList.update ''query'' (PDict (AList.update ''pages'' (PDict (AList.update key p ops)) oq)) od) = PDict od'
    \<and> map_of od' ''query'' = Some (PDict oq') \<and> map_of oq' ''pages'' = Some (PDict ops')
    \<and> (\<forall>k. k \<noteq> key \<longrightarrow> map_of ops' k = map_of ops k)
    \<and> py_getitem (PDict ops') key = Inr p"
  by (rule exI [of _ "AList.update ''query'' (PDict (AList.update ''pages'' (PDict (AList.update key p ops)) oq)) od"],
      rule exI [of _ "AList.update ''pages'' (PDict (AList.update key p ops)) oq"],
      rule exI [of _ "AList.update key p ops"])
     (simp add: update_conv')

lemma combine_page_effect:
  assumes n1: "map_of nd ''query'' = Some (PDict nq)" and n2: "map_of nq ''pages'' = Some (PDict nps)"
    and o1: "map_of od ''query'' = Some (PDict oq)" and o2: "map_of oq ''pages'' = Some (PDict ops)"
    and k: "map_of nps key = Some npage"
    and m: "mergeable_page ty (py_getitem (PDict ops) key) npage"
  shows "\<exists>od' oq' ops'. combine_page ty (PDict od) (PDict nd) key = Inr (PDict od')
        \<and> map_of od' ''query'' = Some (PDict oq') \<and> map_of oq' ''pages'' = Some (PDict ops')
        \<and> (\<forall>k. k \<noteq> key \<longrightarrow> map_of ops' k = map_of ops k)
        \<and> page_merged ty (py_getitem (PDict ops) key) npage (py_getitem (PDict ops') key)"
proof (cases "map_of ops key")
  case None
  then have nk: "key \<notin> fst ` set ops" by (simp add: in_keys_iff)
  have pm: "page_merged ty (py_getitem (PDict ops) key) npage after = (after = Inr npage)" for after
    using None by (simp add: page_merged_def)
  from written_page [of key npage ops oq od] show ?thesis
    unfolding combine_page_new [OF o1 o2 n1 n2 k nk] pm by blast
next
  case (Some opage)
  then have ik: "key \<in> fst ` set ops" by (simp add: in_keys_iff)
  have g: "py_getitem (PDict ops) key = Inr opage" using Some by simp
  from m obtain np where np: "npage = PDict np"
    unfolding g by (cases npage) (simp_all add: mergeable_page_def)
  note k' = k [unfolded np]
  show ?thesis
  proof (cases "map_of np ty")
    case None
    then have nt: "ty \<notin> fst ` set np" by (simp add: in_keys_iff)
    have pm: "page_merged ty (py_getitem (PDict ops) key) npage (py_getitem (PDict ops) key)"
      unfolding g np using None by (simp add: page_merged_def)
    have c: "combine_page ty (PDict od) (PDict nd) key = Inr (PDict od)"
      by (rule combine_page_untouched [OF o1 o2 n1 n2 k' ik nt])
    show ?thesis
      by (rule exI [of _ od], rule exI [of _ oq], rule exI [of _ ops]) (simp add: c o1 o2 pm del: py_getitem.simps)
  next
    case nl: (Some nl)
    from m obtain op where op: "opage = PDict op"
      unfolding g np using nl by (cases opage) (simp_all add: mergeable_page_def)
    note so = Some [unfolded op]
    show ?thesis
    proof (cases "map_of op ty")
      case None
      then have nt: "ty \<notin> fst ` set op" by (simp add: in_keys_iff)
      have pm: "page_merged ty (py_getitem (PDict ops) key) npage after
                  = (after = Inr (PDict (AList.update ty nl op)))" for after
        unfolding g np op using nl None by (simp add: page_merged_def)
      from written_page [of key "PDict (AList.update ty nl op)" ops oq od] show ?thesis
        unfolding combine_page_added [OF o1 o2 n1 n2 k' so nl nt] pm by blast
    next
      case ol: (Some ol)
      from m have "flat_entries ol" "flat_entries nl"
        unfolding g np op using nl ol by (simp_all add: mergeable_page_def)
      then obtain oes nes where oes: "ol = PList (map PDict oes)"
          "\<forall>d\<in>set oes. list_all (\<lambda>kv. py_hashable (snd kv)) d"
        and nes: "nl = PList (map PDict nes)"
          "\<forall>d\<in>set nes. list_all (\<lambda>kv. py_hashable (snd kv)) d"
        using flat_entries_dest by blast
      have me: "merge_entries ol nl = Inr (PList (map PDict (merged_items oes nes)))"
        unfolding oes(1) nes(1) by (rule merge_entries_flat [OF oes(2) nes(2)])
      have pm: "page_merged ty (py_getitem (PDict ops) key) npage after
                  = (after = Inr (PDict (AList.update ty (PList (map PDict (merged_items oes nes))) op)))" for after
        unfolding g np op using nl ol by (simp add: page_merged_def me)
      from written_page [of key "PDict (AList.update ty (PList (map PDict (merged_items oes nes))) op)" ops oq od]
      show ?thesis
        unfolding combine_page_merged [OF o1 o2 n1 n2 k' so nl [unfolded nes(1)] ol [unfolded oes(1)] oes(2) nes(2)] pm
        by blast
    qed
  qed
qed

lemma combine_pages_effect:
  assumes n1: "map_of nd ''query'' = Some (PDict nq)" and n2: "map_of nq ''pages'' = Some (PDict nps)"
  shows "map_of od ''query'' = Some (PDict oq) \<Longrightarrow> map_of oq ''pages'' = Some (PDict ops) \<Longrightarrow>
         distinct keys \<Longrightarrow>
         \<forall>key\<in>set keys. \<exists>npage. map_of nps key = Some npage
                \<and> mergeable_page ty (py_getitem (PDict ops) key) npage \<Longrightarrow>
         \<exists>od' oq' ops'. combine_pages ty (PDict od) (PDict nd) keys = Inr (PDict od')
           \<and> map_of od' ''query'' = Some (PDict oq') \<and> map_of oq' ''pages'' = Some (PDict ops')
           \<and> (\<forall>k. k \<notin> set keys \<longrightarrow> map_of ops' k = map_of ops k)
           \<and> (\<forall>key\<in>set keys. \<forall>npage. map_of nps key = Some npage \<longrightarrow>
                  page_merged ty (py_getitem (PDict ops) key) npage (py_getitem (PDict ops') key))"
proof (induction keys arbitrary: od oq ops)
  case Nil
  show ?case
    by (rule exI [of _ od], rule exI [of _ oq], rule exI [of _ ops]) (simp add: Nil.prems)
next
  case (Cons key rest)
  from Cons.prems(4) obtain npage where k: "map_of nps key = Some npage"
    and m: "mergeable_page ty (py_getitem (PDict ops) key) npage" by auto
  from combine_page_effect [OF n1 n2 Cons.prems(1,2) k m]
  obtain od1 oq1 ops1 where
    c1: "combine_page ty (PDict od) (PDict nd) key = Inr (PDict od1)"
    and s1: "map_of od1 ''query'' = Some (PDict oq1)" "map_of oq1 ''pages'' = Some (PDict ops1)"
    and f1: "\<forall>k. k \<noteq> key \<longrightarrow> map_of ops1 k = map_of ops k"
    and e1: "page_merged ty (py_getitem (PDict ops) key) npage (py_getitem (PDict ops1) key)"
    by blast
  from Cons.prems(3) have d: "distinct rest" and nin: "key \<notin> set rest" by simp_all
  have same: "py_getitem (PDict ops1) k = py_getitem (PDict ops) k" if "k \<in> set rest" for k
  proof -
    from that nin have "k \<noteq> key" by blast
    with f1 have "map_of ops1 k = map_of ops k" by blast
    then show ?thesis by (rule getitem_cong)
  qed
  have h: "\<forall>k\<in>set rest. \<exists>npage. map_of nps k = Some npage
                \<and> mergeable_page ty (py_getitem (PDict ops1) k) npage"
  proof
    fix k assume kr: "k \<in> set rest"
    with Cons.prems(4) obtain p where "map_of nps k = Some p"
      "mergeable_page ty (py_getitem (PDict ops) k) p" by auto
    with same [OF kr] show "\<exists>npage. map_of nps k = Some npage
                \<and> mergeable_page ty (py_getitem (PDict ops1) k) npage" by auto
  qed
  from Cons.IH [OF s1 d h]
  obtain od2 oq2 ops2 where
    c2: "combine_pages ty (PDict od1) (PDict nd) rest = Inr (PDict od2)"
    and s2: "map_of od2 ''query'' = Some (PDict oq2)" "map_of oq2 ''pages'' = Some (PDict ops2)"
    and f2: "\<forall>k. k \<notin> set rest \<longrightarrow> map_of ops2 k = map_of ops1 k"
    and e2: "\<forall>k\<in>set rest. \<forall>npage. map_of nps k = Some npage \<longrightarrow>
                  page_merged ty (py_getitem (PDict ops1) k) npage (py_getitem (PDict ops2) k)"
    by blast
  have c: "combine_pages ty (PDict od) (PDict nd) (key # rest) = Inr (PDict od2)"
    by (simp add: c1 c2 ebind_def)
  have f: "\<forall>k. k \<notin> set (key # rest) \<longrightarrow> map_of ops2 k = map_of ops k"
    using f1 f2 by simp
  have e: "\<forall>k\<in>set (key # rest). \<forall>p. map_of nps k = Some p \<longrightarrow>
                  page_merged ty (py_getitem (PDict ops) k) p (py_getitem (PDict ops2) k)"
  proof (intro ballI allI impI)
    fix k p assume ks: "k \<in> set (key # rest)" and kp: "map_of nps k = Some p"
    show "page_merged ty (py_getitem (PDict ops) k) p (py_getitem (PDict ops2) k)"
    proof (cases "k = key")
      case True
      with kp k have "p = npage" by simp
      moreover have "py_getitem (PDict ops2) key = py_getitem (PDict ops1) key"
        using f2 nin by (intro getitem_cong) blast
      ultimately show ?thesis using e1 True by simp
    next
      case False
      with ks have kr: "k \<in> set rest" by simp
      from e2 kr kp have "page_merged ty (py_getitem (PDict ops1) k) p (py_getitem (PDict ops2) k)" by blast
      with same [OF kr] show ?thesis by simp
    qed
  qed
  show ?case
    by (rule exI [of _ od2], rule exI [of _ oq2], rule exI [of _ ops2]) (intro conjI c s2 f e)
qed

lemma resultCombine_pages:
  assumes "map_of nd ''query'' = Some (PDict nq)" "ty \<notin> fst ` set nq"
    "map_of nq ''pages'' = Some (PDict nps)"
  shows "resultCombine ty old (PDict nd) = combine_pages ty old (PDict nd) (map fst nps)"
  using assms by (simp add: resultCombine_def ebind_def)

lemma merge_entries_dedup:
  assumes "\<forall>d\<in>set oes \<union> set nes. list_all (\<lambda>kv. py_hashable (snd kv)) d"
  shows "\<exists>m. merge_entries (PList (map PDict oes)) (PList (map PDict nes)) = Inr (PList (map PDict m))
           \<and> (\<forall>e\<in>set oes \<union> set nes. \<exists>x\<in>set m. items_eq e x)
           \<and> set m \<subseteq> set oes \<union> set nes
           \<and> distinct_items m"
proof -
  have f1: "\<forall>d\<in>set oes. list_all (\<lambda>kv. py_hashable (snd kv)) d" using assms by blast
  have f2: "\<forall>d\<in>set nes. list_all (\<lambda>kv. py_hashable (snd kv)) d" using assms by blast
  have c: "\<forall>e\<in>set oes \<union> set nes. \<exists>x\<in>set (merged_items oes nes). items_eq e x"
    using merged_items_covers by blast
  show ?thesis
    by (rule exI [of _ "merged_items oes nes"])
       (intro conjI merge_entries_flat [OF f1 f2] c merged_items_from merged_items_distinct)
qed

text \<open>
  C9, as amended. A new answer with any number of pages is merged into an aggregate, the
  query type not being a top-level list of the new answer. Every page of the new answer
  is dealt with: a page that the aggregate does not have is added as it is; a page that
  lacks the property in the new answer is left as it was; a property that only the new
  page has is taken over as it is; and when both have the property, as lists of dicts of
  hashable scalar values, the page gets the merged list. The pages that the new answer
  does not have stay as they were. The merged list of two such lists has for every entry
  of either list an entry with the same item tuple, holds only entries of the two lists,
  and holds no two entries with the same item tuple.
\<close>

theorem resultCombine_pages_merge:
  assumes "map_of od ''query'' = Some (PDict oq)" and "map_of oq ''pages'' = Some (PDict ops)"
    and "map_of nd ''query'' = Some (PDict nq)" and "ty \<notin> fst ` set nq"
    and "map_of nq ''pages'' = Some (PDict nps)" and "distinct (map fst nps)"
    and "\<forall>key npage. map_of nps key = Some npage
            \<longrightarrow> mergeable_page ty (page_of (PDict od) key) npage"
  shows "(\<exists>ret. resultCombine ty (PDict od) (PDict nd) = Inr ret
            \<and> (\<forall>key npage. map_of nps key = Some npage
                  \<longrightarrow> page_merged ty (page_of (PDict od) key) npage (page_of ret key))
            \<and> (\<forall>key. map_of nps key = None \<longrightarrow> page_of ret key = page_of (PDict od) key))
       \<and> (\<forall>oes nes. (\<forall>d\<in>set oes \<union> set nes. list_all (\<lambda>kv. py_hashable (snd kv)) d) \<longrightarrow>
            (\<exists>m. merge_entries (PList (map PDict oes)) (PList (map PDict nes)) = Inr (PList (map PDict m))
               \<and> (\<forall>e\<in>set oes \<union> set nes. \<exists>x\<in>set m. items_eq e x)
               \<and> set m \<subseteq> set oes \<union> set nes
               \<and> distinct_items m))"
proof -
  have po: "page_of (PDict od) k = py_getitem (PDict ops) k" for k
    by (rule page_of_dict [OF assms(1,2)])
  have h: "\<forall>key\<in>set (map fst nps). \<exists>npage. map_of nps key = Some npage
                \<and> mergeable_page ty (py_getitem (PDict ops) key) npage"
  proof
    fix key assume "key \<in> set (map fst nps)"
    then obtain npage where "map_of nps key = Some npage"
      by (auto simp: in_keys_iff)
    with assms(7) show "\<exists>npage. map_of nps key = Some npage
                \<and> mergeable_page ty (py_getitem (PDict ops) key) npage"
      unfolding po by blast
  qed
  from combine_pages_effect [OF assms(3,5) assms(1,2) assms(6) h]
  obtain od' oq' ops' where
    c: "combine_pages ty (PDict od) (PDict nd) (map fst nps) = Inr (PDict od')"
    and s: "map_of od' ''query'' = Some (PDict oq')" "map_of oq' ''pages'' = Some (PDict ops')"
    and f: "\<forall>k. k \<notin> set (map fst nps) \<longrightarrow> map_of ops' k = map_of ops k"
    and e: "\<forall>key\<in>set (map fst nps). \<forall>npage. map_of nps key = Some npage \<longrightarrow>
                  page_merged ty (py_getitem (PDict ops) key) npage (py_getitem (PDict ops') key)"
    by blast
  have po': "page_of (PDict od') k = py_getitem (PDict ops') k" for k
    by (rule page_of_dict [OF s])
  have r: "resultCombine ty (PDict od) (PDict nd) = Inr (PDict od')"
    unfolding resultCombine_pages [OF assms(3,4,5)] by (rule c)
  have e': "\<forall>key npage. map_of nps key = Some npage
                  \<longrightarrow> page_merged ty (page_of (PDict od) key) npage (page_of (PDict od') key)"
  proof (intro allI impI)
    fix key npage assume k: "map_of nps key = Some npage"
    then have "key \<in> set (map fst nps)" by (simp add: in_keys_iff)
    with e k show "page_merged ty (page_of (PDict od) key) npage (page_of (PDict od') key)"
      unfolding po po' by blast
  qed
  have f': "\<forall>key. map_of nps key = None \<longrightarrow> page_of (PDict od') key = page_of (PDict od) key"
  proof (intro allI impI)
    fix key assume "map_of nps key = None"
    then have "key \<notin> set (map fst nps)" by (simp add: in_keys_iff)
    with f have "map_of ops' key = map_of ops key" by blast
    then show "page_of (PDict od') key = page_of (PDict od) key"
      unfolding po po' by (rule getitem_cong)
  qed
  have A: "\<exists>ret. resultCombine ty (PDict od) (PDict nd) = Inr ret
            \<and> (\<forall>key npage. map_of nps key = Some npage
                  \<longrightarrow> page_merged ty (page_of (PDict od) key) npage (page_of ret key))
            \<and> (\<forall>key. map_of nps key = None \<longrightarrow> page_of ret key = page_of (PDict od) key)"
    by (rule exI [of _ "PDict od'"]) (intro conjI r e' f')
  from A merge_entries_dedup show ?thesis by blast
qed

text \<open>
  C9 as stated says that the merged list has no two entries that are equal field by
  field. The tuples of items keep the order of the fields, so the entry for the title A,
  whose fields come in another order in the second answer, is in the merged list twice.
\<close>

theorem merge_field_order_counterexample:
  "ebind (resultCombine ''links'' example_old example_new) (\<lambda>ret. entries_of ret ''1'' ''links'')
     = Inr (PList [PDict [(''ns'', PInt 0), (''title'', PStr ''A'')],
                   PDict [(''title'', PStr ''A''), (''ns'', PInt 0)],
                   PDict [(''ns'', PInt 0), (''title'', PStr ''B'')]])
   \<and> fields_eq [(''ns'', PInt 0), (''title'', PStr ''A'')] [(''title'', PStr ''A''), (''ns'', PInt 0)]"
  by code_simp

theorem resultCombine_pages_merge_witness:
  "\<exists>ret m. resultCombine ''links'' merge_old merge_new = Inr ret
       \<and> entries_of ret ''1'' ''links'' = Inr (PList (map PDict m))
       \<and> length m = 3
       \<and> set m = {[(''ns'', PInt 0), (''title'', PStr ''A'')],
                  [(''ns'', PInt 0), (''title'', PStr ''B'')],
                  [(''ns'', PInt 0), (''title'', PStr ''C'')]}
       \<and> distinct_items m
       \<and> page_of ret ''2'' = Inr (PDict [(''title'', PStr ''Q''),
                       (''links'', PList [PDict [(''ns'', PInt 0), (''title'', PStr ''D'')]])])
       \<and> page_of ret ''3'' = page_of merge_old ''3''"
proof -
  let ?a = "[(''ns'', PInt 0), (''title'', PStr ''A'')]"
  let ?b = "[(''ns'', PInt 0), (''title'', PStr ''B'')]"
  let ?c = "[(''ns'', PInt 0), (''title'', PStr ''C'')]"
  let ?D = "PDict [(''ns'', PInt 0), (''title'', PStr ''D'')]"
  let ?op = "[(''title'', PStr ''P''), (''links'', PList [PDict ?a, PDict ?c])]"
  let ?np1 = "[(''title'', PStr ''P''), (''links'', PList [PDict ?a, PDict ?b])]"
  let ?np2 = "[(''title'', PStr ''Q''), (''links'', PList [?D])]"
  let ?ops = "[(''1'', PDict ?op)]"
  let ?nps = "[(''1'', PDict ?np1), (''2'', PDict ?np2)]"
  let ?oq = "[(''pages'', PDict ?ops)]"
  let ?nq = "[(''pages'', PDict ?nps)]"
  let ?od = "[(''query'', PDict ?oq)]"
  let ?nd = "[(''query'', PDict ?nq)]"
  have o: "merge_old = PDict ?od" by (simp add: merge_old_def)
  have n: "merge_new = PDict ?nd" by (simp add: merge_new_def)
  have h1: "map_of ?od ''query'' = Some (PDict ?oq)" by simp
  have h2: "map_of ?oq ''pages'' = Some (PDict ?ops)" by simp
  have h3: "map_of ?nd ''query'' = Some (PDict ?nq)" by simp
  have h4: "''links'' \<notin> fst ` set ?nq" by simp
  have h5: "map_of ?nq ''pages'' = Some (PDict ?nps)" by simp
  have h6: "distinct (map fst ?nps)" by simp
  have me: "merge_entries (PList [PDict ?a, PDict ?c]) (PList [PDict ?a, PDict ?b])
              = Inr (PList [PDict ?a, PDict ?c, PDict ?b])"
    by code_simp
  have p1: "page_of (PDict ?od) ''1'' = Inr (PDict ?op)" by (simp add: page_of_def ebind_def)
  have p2: "page_of (PDict ?od) ''2'' = Inl (KeyError ''2'')" by (simp add: page_of_def ebind_def)
  have h7: "\<forall>key npage. map_of ?nps key = Some npage
              \<longrightarrow> mergeable_page ''links'' (page_of (PDict ?od) key) npage"
  proof (intro allI impI)
    fix key npage assume a: "map_of ?nps key = Some npage"
    then consider "key = ''1''" "npage = PDict ?np1" | "key = ''2''" "npage = PDict ?np2"
      by (auto split: if_splits)
    then show "mergeable_page ''links'' (page_of (PDict ?od) key) npage"
    proof cases
      case 1
      then show ?thesis unfolding 1 p1 by (simp add: mergeable_page_def flat_entries_def)
    next
      case 2
      then show ?thesis unfolding 2 p2 by (simp add: mergeable_page_def)
    qed
  qed
  note mg = resultCombine_pages_merge [OF h1 h2 h3 h4 h5 h6 h7]
  from mg [THEN conjunct1]
  obtain ret where r: "resultCombine ''links'' (PDict ?od) (PDict ?nd) = Inr ret"
    and e: "\<forall>key npage. map_of ?nps key = Some npage
                  \<longrightarrow> page_merged ''links'' (page_of (PDict ?od) key) npage (page_of ret key)"
    and f: "\<forall>key. map_of ?nps key = None \<longrightarrow> page_of ret key = page_of (PDict ?od) key"
    by blast
  have fl: "\<forall>d\<in>set [?a, ?c] \<union> set [?a, ?b]. list_all (\<lambda>kv. py_hashable (snd kv)) d" by simp
  from mg [THEN conjunct2, THEN spec, THEN spec, THEN mp, OF fl]
  obtain m where mm: "merge_entries (PList (map PDict [?a, ?c])) (PList (map PDict [?a, ?b]))
                        = Inr (PList (map PDict m))"
    and di: "distinct_items m"
    by blast
  from mm me have "map PDict m = [PDict ?a, PDict ?c, PDict ?b]" by simp
  then have m: "m = [?a, ?c, ?b]" by (auto simp: map_eq_Cons_conv)
  have "map_of ?nps ''1'' = Some (PDict ?np1)" by simp
  with e have "page_merged ''links'' (page_of (PDict ?od) ''1'') (PDict ?np1) (page_of ret ''1'')" by blast
  then have q1: "page_of ret ''1'' = Inr (PDict (AList.update ''links'' (PList [PDict ?a, PDict ?c, PDict ?b]) ?op))"
    unfolding p1 by (simp add: page_merged_def me)
  have "map_of ?nps ''2'' = Some (PDict ?np2)" by simp
  with e have "page_merged ''links'' (page_of (PDict ?od) ''2'') (PDict ?np2) (page_of ret ''2'')" by blast
  then have q2: "page_of ret ''2'' = Inr (PDict ?np2)"
    unfolding p2 by (simp add: page_merged_def)
  have "map_of ?nps ''3'' = None" by simp
  with f have q3: "page_of ret ''3'' = page_of (PDict ?od) ''3''" by blast
  have e1: "entries_of ret ''1'' ''links'' = Inr (PList (map PDict m))"
    unfolding m by (simp add: entries_of_def q1 ebind_def)
  have l: "length m = 3" unfolding m by simp
  have s: "set m = {?a, ?b, ?c}" unfolding m by auto
  show ?thesis
    unfolding o n
    by (rule exI [of _ ret], rule exI [of _ m]) (intro conjI r e1 l s di q2 q3)
qed

end
